theory Spec2Isabelle
  imports Complex_Main "HOL-Library.Sublist"
begin

section \<open>JavaScript values\<close>

text \<open>
  The helper works on values produced by \<^verbatim>\<open>response.json()\<close>. A JavaScript number is an
  IEEE double; the model keeps the finite ones as exact rationals (rounding is not
  modelled) next to the two infinities and NaN. An object is its list of own properties,
  each key once, in \<^verbatim>\<open>Object.keys\<close> order.
\<close>

datatype jsnum = Fin rat | PosInf | NegInf | NaN

datatype json =
    JNull
  | JBool bool
  | JNum jsnum
  | JStr string
  | JArr "json list"
  | JObj "(string \<times> json) list"

text \<open>\<^verbatim>\<open>if (x)\<close>: the falsy values are null, false, 0, NaN and the empty string.\<close>

fun truthy :: "json \<Rightarrow> bool" where
  "truthy JNull = False"
| "truthy (JBool b) = b"
| "truthy (JNum (Fin r)) = (r \<noteq> 0)"
| "truthy (JNum NaN) = False"
| "truthy (JNum PosInf) = True"
| "truthy (JNum NegInf) = True"
| "truthy (JStr s) = (s \<noteq> [])"
| "truthy (JArr xs) = True"
| "truthy (JObj kvs) = True"

fun typeof :: "json \<Rightarrow> string" where
  "typeof JNull = ''object''"
| "typeof (JBool b) = ''boolean''"
| "typeof (JNum n) = ''number''"
| "typeof (JStr s) = ''string''"
| "typeof (JArr xs) = ''object''"
| "typeof (JObj kvs) = ''object''"

fun isArray :: "json \<Rightarrow> bool" where
  "isArray (JArr xs) = True"
| "isArray v = False"

text \<open>\<^verbatim>\<open>s.includes(t)\<close>: \<open>t\<close> occurs in \<open>s\<close> as a contiguous substring.\<close>

fun startsWith :: "string \<Rightarrow> string \<Rightarrow> bool" where
  "startsWith s [] = True"
| "startsWith [] (c # t) = False"
| "startsWith (d # s) (c # t) = (d = c \<and> startsWith s t)"

fun includesStr :: "string \<Rightarrow> string \<Rightarrow> bool" where
  "includesStr [] t = (t = [])"
| "includesStr (c # s) t = (startsWith (c # s) t \<or> includesStr s t)"

text \<open>Decimal digits of a natural number, as \<^verbatim>\<open>String(n)\<close> prints an index or a counter.\<close>

definition digitChar :: "nat \<Rightarrow> char" where
  "digitChar d = char_of (48 + d)"

fun showNat :: "nat \<Rightarrow> string" where
  "showNat n = (if n < 10 then [digitChar n] else showNat (n div 10) @ [digitChar (n mod 10)])"

declare showNat.simps [simp del]

section \<open>The capture log of ApiHelper\<close>

record captured =
  endpoint :: string
  httpMethod :: string
  data :: json
  timestamp :: nat

record jsonResponse =
  jr_endpoint :: string
  jr_method :: string
  jr_response :: json
  jr_timestamp :: nat

text \<open>
  The fields set by the constructor. \<open>requestContext\<close> is \<open>None\<close> for null and holds
  the base URL of the context once \<^verbatim>\<open>init\<close> has run.
\<close>

record apiHelper =
  baseURL :: string
  requestContext :: "string option"
  capturedEndpoints :: "captured list"
  jsonResponses :: "jsonResponse list"

definition constructor :: apiHelper where
  "constructor = \<lparr> baseURL = ''https://parabank.parasoft.com/parabank'',
     requestContext = None, capturedEndpoints = [], jsonResponses = [] \<rparr>"

definition init :: "apiHelper \<Rightarrow> apiHelper" where
  "init s = s\<lparr> requestContext := Some (baseURL s) \<rparr>"

text \<open>
  \<^verbatim>\<open>storeCapturedEndpoint(endpoint, method, data = null)\<close>. The two readings of
  \<^verbatim>\<open>Date.now()\<close> are the parameters \<open>t1\<close> and \<open>t2\<close>; an omitted \<open>data\<close> is \<open>JNull\<close>.
\<close>

definition storeCapturedEndpoint ::
  "nat \<Rightarrow> nat \<Rightarrow> string \<Rightarrow> string \<Rightarrow> json \<Rightarrow> apiHelper \<Rightarrow> apiHelper" where
  "storeCapturedEndpoint t1 t2 ep m d s =
     (let capturedData = \<lparr> endpoint = ep, httpMethod = m, data = d, timestamp = t1 \<rparr>;
          s1 = s\<lparr> capturedEndpoints := capturedEndpoints s @ [capturedData] \<rparr>
      in if truthy d
         then s1\<lparr> jsonResponses := jsonResponses s1 @
                [\<lparr> jr_endpoint = ep, jr_method = m, jr_response = d, jr_timestamp = t2 \<rparr>] \<rparr>
         else s1)"

definition getCapturedEndpoints :: "apiHelper \<Rightarrow> captured list" where
  "getCapturedEndpoints s = capturedEndpoints s"

definition getJsonResponses :: "apiHelper \<Rightarrow> jsonResponse list" where
  "getJsonResponses s = jsonResponses s"

section \<open>Number parsing\<close>

text \<open>
  \<^verbatim>\<open>parseFloat\<close> and \<^verbatim>\<open>parseInt\<close> are built in; they are written out here after their
  ECMAScript definitions: leading white space is skipped, then the longest prefix that is
  a literal is read, and NaN is the answer when there is none. A character of the model
  is a code unit below 256, so the white space is the six ASCII characters and the
  no-break space. A value too large for a double is an infinity; below that bound the
  value read is the exact decimal, where the code has the double nearest to it.
\<close>

definition isWhite :: "char \<Rightarrow> bool" where
  "isWhite c = (let n = (of_char c :: nat) in n = 32 \<or> (9 \<le> n \<and> n \<le> 13) \<or> n = 160)"

definition isDigit :: "char \<Rightarrow> bool" where
  "isDigit c = (let n = (of_char c :: nat) in 48 \<le> n \<and> n \<le> 57)"

definition isHexDigit :: "char \<Rightarrow> bool" where
  "isHexDigit c = (let n = (of_char c :: nat) in
     (48 \<le> n \<and> n \<le> 57) \<or> (97 \<le> n \<and> n \<le> 102) \<or> (65 \<le> n \<and> n \<le> 70))"

definition hexVal :: "char \<Rightarrow> nat" where
  "hexVal c = (let n = (of_char c :: nat) in
     if n \<le> 57 then n - 48 else if 97 \<le> n then n - 87 else n - 55)"

definition digitsVal :: "nat \<Rightarrow> string \<Rightarrow> nat" where
  "digitsVal radix ds = foldl (\<lambda>a c. radix * a + hexVal c) 0 ds"

definition splitSign :: "string \<Rightarrow> bool \<times> string" where
  "splitSign s = (case s of
       [] \<Rightarrow> (False, [])
     | c # r \<Rightarrow> if c = CHR ''-'' then (True, r) else if c = CHR ''+'' then (False, r) else (False, s))"

definition pow10 :: "int \<Rightarrow> rat" where
  "pow10 k = (if 0 \<le> k then 10 ^ nat k else 1 / 10 ^ nat (- k))"

definition exponentPart :: "string \<Rightarrow> int" where
  "exponentPart r = (case r of
       [] \<Rightarrow> 0
     | c # t \<Rightarrow>
         if c = CHR ''e'' \<or> c = CHR ''E''
         then (let (neg, t1) = splitSign t; ds = takeWhile isDigit t1
               in if ds = [] then 0
                  else if neg then - int (digitsVal 10 ds) else int (digitsVal 10 ds))
         else 0)"

text \<open>The magnitudes that round to an infinity: from \<open>2\<^sup>1\<^sup>0\<^sup>2\<^sup>4 - 2\<^sup>9\<^sup>7\<^sup>0\<close> on.\<close>

definition overflows :: "rat \<Rightarrow> bool" where
  "overflows v = (2 ^ 1024 - 2 ^ 970 \<le> \<bar>v\<bar>)"

definition parseFloat :: "string \<Rightarrow> jsnum" where
  "parseFloat inp =
     (let (neg, s1) = splitSign (dropWhile isWhite inp)
      in if startsWith s1 ''Infinity'' then (if neg then NegInf else PosInf)
         else
           let ip = takeWhile isDigit s1;
               r1 = dropWhile isDigit s1;
               (fp, r2) = (case r1 of
                    [] \<Rightarrow> ([], [])
                  | c # r \<Rightarrow> if c = CHR ''.''
                            then (takeWhile isDigit r, dropWhile isDigit r) else ([], r1))
           in if ip = [] \<and> fp = [] then NaN
              else
                let v = of_nat (digitsVal 10 (ip @ fp)) * pow10 (exponentPart r2 - int (length fp))
                in if overflows v then (if neg then NegInf else PosInf)
                   else Fin (if neg then - v else v))"

definition parseInt :: "string \<Rightarrow> jsnum" where
  "parseInt inp =
     (let (neg, s1) = splitSign (dropWhile isWhite inp);
          hex = (startsWith s1 ''0x'' \<or> startsWith s1 ''0X'');
          ds = (if hex then takeWhile isHexDigit (drop 2 s1) else takeWhile isDigit s1);
          v = of_nat (digitsVal (if hex then 16 else 10) ds)
      in if ds = [] then NaN
         else if overflows v then (if neg then NegInf else PosInf)
         else Fin (if neg then - v else v))"

text \<open>
  A number argument is first printed by \<^verbatim>\<open>String\<close>. \<^verbatim>\<open>parseFloat\<close> reads the printed
  number back unchanged. \<^verbatim>\<open>parseInt\<close> keeps the digits before the point: the integer
  part while the number prints in plain notation (from \<open>10\<^sup>-\<^sup>6\<close> up to \<open>10\<^sup>2\<^sup>1\<close>), and the
  single leading digit once it prints in exponent notation.
\<close>

fun leadNat :: "nat \<Rightarrow> nat" where
  "leadNat n = (if n < 10 then n else leadNat (n div 10))"

declare leadNat.simps [simp del]

function leadFrac :: "nat \<Rightarrow> nat \<Rightarrow> nat" where
  "leadFrac p q = (if p = 0 \<or> q \<le> p then p div q else leadFrac (10 * p) q)"
  by pat_completeness auto
termination
  by (relation "measure (\<lambda>(p, q). q - p)") auto

declare leadFrac.simps [simp del]

definition parseIntNum :: "jsnum \<Rightarrow> jsnum" where
  "parseIntNum n = (case n of
       Fin r \<Rightarrow>
         (let a = \<bar>r\<bar>;
              (p, q) = quotient_of a;
              d = (if a = 0 then 0
                   else if a < 1 / 10 ^ 6 then leadFrac (nat p) (nat q)
                   else if a < 10 ^ 21 then nat \<lfloor>a\<rfloor>
                   else leadNat (nat \<lfloor>a\<rfloor>))
          in Fin (if r < 0 then - of_nat d else of_nat d))
     | _ \<Rightarrow> NaN)"

section \<open>Properties and printing of a value\<close>

text \<open>
  The own enumerable properties of a value, in \<^verbatim>\<open>Object.keys\<close> order; \<open>None\<close> is the
  TypeError that \<^verbatim>\<open>Object.keys(null)\<close> throws. A string and an array have their indices,
  a number and a boolean have none.
\<close>

fun ownProperties :: "json \<Rightarrow> (string \<times> json) list option" where
  "ownProperties JNull = None"
| "ownProperties (JBool b) = Some []"
| "ownProperties (JNum n) = Some []"
| "ownProperties (JStr s) = Some (zip (map showNat [0..<length s]) (map (\<lambda>c. JStr [c]) s))"
| "ownProperties (JArr xs) = Some (zip (map showNat [0..<length xs]) xs)"
| "ownProperties (JObj kvs) = Some kvs"

text \<open>\<^verbatim>\<open>item.name\<close> for a name that no prototype defines; \<open>None\<close> is undefined.\<close>

definition getProperty :: "json \<Rightarrow> string \<Rightarrow> json option" where
  "getProperty item name = (case ownProperties item of None \<Rightarrow> None | Some kvs \<Rightarrow> map_of kvs name)"

text \<open>
  Conversion to a string (a template literal, \<^verbatim>\<open>parseFloat\<close>, \<^verbatim>\<open>join\<close>) throws a
  TypeError on an object that has an own property \<^verbatim>\<open>toString\<close>: a parsed value is never
  callable, and \<^verbatim>\<open>valueOf\<close> does not return a primitive. An array prints its elements.
\<close>

fun printable :: "json \<Rightarrow> bool" where
  "printable (JObj kvs) = (''toString'' \<notin> set (map fst kvs))"
| "printable (JArr xs) = list_all printable xs"
| "printable v = True"

text \<open>
  \<^verbatim>\<open>parseFloat(v)\<close> and \<^verbatim>\<open>parseInt(v)\<close> on a printable value. An array prints as its
  elements joined by commas, and a comma ends every literal, so only the first element
  is read; null, a boolean and an object print as a word that is no literal.
\<close>

fun parseFloatJ :: "json \<Rightarrow> jsnum" where
  "parseFloatJ (JStr s) = parseFloat s"
| "parseFloatJ (JNum n) = n"
| "parseFloatJ (JArr (x # xs)) = parseFloatJ x"
| "parseFloatJ v = NaN"

fun parseIntJ :: "json \<Rightarrow> jsnum" where
  "parseIntJ (JStr s) = parseInt s"
| "parseIntJ (JNum n) = parseIntNum n"
| "parseIntJ (JArr (x # xs)) = parseIntJ x"
| "parseIntJ v = NaN"

section \<open>The response classifier: analyzeJsonResponse\<close>

datatype error = TypeError

datatype status = PASS | FAIL | MISSING | INFO

record fieldCheck =
  field :: string
  status :: status
  val :: "json option"
  reason :: "string option"
  validation :: "string option"
  ctype :: "string option"

definition check :: "string \<Rightarrow> status \<Rightarrow> fieldCheck" where
  "check f st = \<lparr> field = f, status = st, val = None, reason = None, validation = None,
     ctype = None \<rparr>"

record counts =
  passed :: nat
  failed :: nat
  missing :: nat
  info :: nat

datatype sentry = Fields "string list" | Entry string json | Value json

record analysis =
  a_endpoint :: string
  a_type :: string
  a_isArray :: bool
  a_structure :: "string \<rightharpoonup> sentry"
  validations :: "fieldCheck list"
  a_data :: json
  arrayLength :: "nat option"
  summary :: "counts option"

definition countStatus :: "status \<Rightarrow> fieldCheck list \<Rightarrow> nat" where
  "countStatus st vs = length (filter (\<lambda>v. status v = st) vs)"

definition summarise :: "fieldCheck list \<Rightarrow> counts" where
  "summarise vs = \<lparr> passed = countStatus PASS vs, failed = countStatus FAIL vs,
     missing = countStatus MISSING vs, info = countStatus INFO vs \<rparr>"

definition transactionFields :: "string list" where
  "transactionFields = [''id'', ''accountId'', ''amount'', ''date'', ''type'', ''description'']"

definition accountFields :: "string list" where
  "accountFields = [''id'', ''customerId'', ''type'', ''balance'']"

text \<open>
  \<^verbatim>\<open>structure[k] = e\<close>: an assignment to the key \<^verbatim>\<open>__proto__\<close> sets the prototype and
  adds no entry.
\<close>

definition assign :: "string \<Rightarrow> sentry \<Rightarrow> (string \<rightharpoonup> sentry) \<Rightarrow> (string \<rightharpoonup> sentry)" where
  "assign k e m = (if k = ''__proto__'' then m else m(k \<mapsto> e))"

text \<open>\<^verbatim>\<open>structure.fields = fields\<close>, then one entry per field, a later one replacing an earlier.\<close>

definition inventory :: "(string \<times> json) list \<Rightarrow> (string \<rightharpoonup> sentry)" where
  "inventory props =
     foldl (\<lambda>m (k, v). assign k (Entry (typeof v) v) m) [''fields'' \<mapsto> Fields (map fst props)] props"

definition presenceCheck :: "(string \<times> json) list \<Rightarrow> string \<Rightarrow> fieldCheck" where
  "presenceCheck props f =
     (if f \<in> set (map fst props)
      then (check f PASS)\<lparr> val := map_of props f \<rparr>
      else (check f MISSING)\<lparr> reason := Some ''Field not found in response'' \<rparr>)"

definition amountCheck :: "json \<Rightarrow> fieldCheck list" where
  "amountCheck firstItem = (case getProperty firstItem ''amount'' of
       None \<Rightarrow> []
     | Some a \<Rightarrow>
         (let amount = parseFloatJ a
          in if amount \<noteq> NaN
             then [(check ''amount'' PASS)\<lparr> val := Some (JNum amount),
                      validation := Some ''valid_number'' \<rparr>]
             else [(check ''amount'' FAIL)\<lparr> val := Some a, reason := Some ''not_a_number'' \<rparr>]))"

definition accountIdCheck :: "json \<Rightarrow> fieldCheck list" where
  "accountIdCheck firstItem = (case getProperty firstItem ''accountId'' of
       None \<Rightarrow> []
     | Some a \<Rightarrow>
         (let accountId = parseIntJ a
          in if accountId \<noteq> NaN
             then [(check ''accountId'' PASS)\<lparr> val := Some (JNum accountId),
                      validation := Some ''valid_number'' \<rparr>]
             else [(check ''accountId'' FAIL)\<lparr> val := Some a, reason := Some ''not_a_number'' \<rparr>]))"

text \<open>
  Two computations are left to the host and are parameters of the model.
  \<^verbatim>\<open>Date.parse\<close> is implementation-defined for everything but one ISO format:
  \<open>dateParses h v\<close> stands for \<^verbatim>\<open>!isNaN(Date.parse(v))\<close>. The amount filter compares
  doubles: \<open>amountNear h a amount\<close> stands for
  \<^verbatim>\<open>Math.abs(Math.abs(parseFloat(a)) - parseFloat(amount)) < 0.01\<close> as IEEE arithmetic
  computes it, for a printable value \<open>a\<close> and the search text \<open>amount\<close>.
\<close>

record host =
  dateParses :: "json \<Rightarrow> bool"
  amountNear :: "json \<Rightarrow> string \<Rightarrow> bool"

definition dateCheck :: "host \<Rightarrow> json \<Rightarrow> fieldCheck list" where
  "dateCheck h firstItem = (case getProperty firstItem ''date'' of
       None \<Rightarrow> []
     | Some dateValue \<Rightarrow>
         if dateParses h dateValue
         then [(check ''date'' PASS)\<lparr> val := Some dateValue, validation := Some ''valid_date'' \<rparr>]
         else [(check ''date'' FAIL)\<lparr> val := Some dateValue, reason := Some ''invalid_date'' \<rparr>])"

definition withSummary :: "analysis \<Rightarrow> analysis" where
  "withSummary a = a\<lparr> summary := Some (summarise (validations a)) \<rparr>"

text \<open>
  \<^verbatim>\<open>analyzeJsonResponse(jsonData, endpoint)\<close>. The null branch returns before the summary
  is computed. Logging a field prints its value, which is where an unprintable value
  throws.
\<close>

definition analyzeJsonResponse :: "host \<Rightarrow> json \<Rightarrow> string \<Rightarrow> error + analysis" where
  "analyzeJsonResponse h jsonData ep =
     (let a0 = \<lparr> a_endpoint = ep, a_type = typeof jsonData, a_isArray = isArray jsonData,
                 a_structure = Map.empty, validations = [], a_data = jsonData,
                 arrayLength = None, summary = None \<rparr>
      in case jsonData of
           JNull \<Rightarrow>
             Inr (a0\<lparr> validations := [(check ''response'' FAIL)\<lparr> reason := Some ''Response is null'' \<rparr>] \<rparr>)
         | JArr xs \<Rightarrow>
             (case xs of
                [] \<Rightarrow> Inr (withSummary (a0\<lparr> arrayLength := Some 0,
                         validations := [(check ''array'' INFO)\<lparr> reason := Some ''Empty array response'' \<rparr>] \<rparr>))
              | firstItem # rest \<Rightarrow>
                  (case ownProperties firstItem of
                     None \<Rightarrow> Inl TypeError
                   | Some props \<Rightarrow>
                       if \<not> list_all (\<lambda>(k, v). printable v) props then Inl TypeError
                       else Inr (withSummary (a0\<lparr> arrayLength := Some (length xs),
                              a_structure := inventory props,
                              validations := map (presenceCheck props) transactionFields
                                @ amountCheck firstItem @ accountIdCheck firstItem
                                @ dateCheck h firstItem \<rparr>))))
         | JObj kvs \<Rightarrow>
             if \<not> list_all (\<lambda>(k, v). printable v) kvs then Inl TypeError
             else Inr (withSummary (a0\<lparr> a_structure := inventory kvs,
                    validations := map (presenceCheck kvs) accountFields \<rparr>))
         | _ \<Rightarrow>
             Inr (withSummary (a0\<lparr> a_structure := [''value'' \<mapsto> Value jsonData],
                    validations := [(check ''response'' INFO)\<lparr> val := Some jsonData,
                                      ctype := Some (typeof jsonData) \<rparr>] \<rparr>)))"

subsection \<open>The method as it runs on the helper\<close>

text \<open>
  The method again, statement by statement, as a call on the helper: \<open>self\<close> is the
  object the method is called on and \<open>analysisObj\<close> the local object that the
  statements fill in. \<open>push\<close> is \<^verbatim>\<open>analysis.validations.push\<close>, \<open>setStructure\<close> an
  assignment to a property of \<^verbatim>\<open>analysis.structure\<close>, each \<^verbatim>\<open>forEach\<close> a loop over its
  list. A call returns what the method returns or throws, and the helper as the call
  leaves it.
\<close>

record frame =
  self :: apiHelper
  analysisObj :: analysis

definition push :: "fieldCheck \<Rightarrow> frame \<Rightarrow> frame" where
  "push v fr = fr\<lparr> analysisObj := (analysisObj fr)\<lparr> validations := validations (analysisObj fr) @ [v] \<rparr> \<rparr>"

definition setStructure :: "string \<Rightarrow> sentry \<Rightarrow> frame \<Rightarrow> frame" where
  "setStructure k e fr =
     fr\<lparr> analysisObj := (analysisObj fr)\<lparr> a_structure := assign k e (a_structure (analysisObj fr)) \<rparr> \<rparr>"

text \<open>The first loop: a field is logged, which throws when its value does not print, then recorded.\<close>

fun recordFields :: "(string \<times> json) list \<Rightarrow> frame \<Rightarrow> error option \<times> frame" where
  "recordFields [] fr = (None, fr)"
| "recordFields ((k, v) # rest) fr =
     (if printable v then recordFields rest (setStructure k (Entry (typeof v) v) fr)
      else (Some TypeError, fr))"

text \<open>The second loop: one presence check per expected field.\<close>

fun checkFields :: "(string \<times> json) list \<Rightarrow> string list \<Rightarrow> frame \<Rightarrow> frame" where
  "checkFields props [] fr = fr"
| "checkFields props (f # fs) fr = checkFields props fs (push (presenceCheck props f) fr)"

text \<open>A conditional push: the list holds the check when the condition of the source holds.\<close>

fun pushAll :: "fieldCheck list \<Rightarrow> frame \<Rightarrow> frame" where
  "pushAll [] fr = fr"
| "pushAll (v # vs) fr = pushAll vs (push v fr)"

definition finish :: "frame \<Rightarrow> (error + analysis) \<times> apiHelper" where
  "finish fr =
     (Inr ((analysisObj fr)\<lparr> summary := Some (summarise (validations (analysisObj fr))) \<rparr>), self fr)"

definition analyzeJsonResponseCall ::
  "host \<Rightarrow> json \<Rightarrow> string \<Rightarrow> apiHelper \<Rightarrow> (error + analysis) \<times> apiHelper" where
  "analyzeJsonResponseCall h jsonData ep s =
     (let fr0 = \<lparr> self = s,
                 analysisObj = \<lparr> a_endpoint = ep, a_type = typeof jsonData,
                   a_isArray = isArray jsonData, a_structure = Map.empty, validations = [],
                   a_data = jsonData, arrayLength = None, summary = None \<rparr> \<rparr>
      in case jsonData of
           JNull \<Rightarrow>
             (let fr = push ((check ''response'' FAIL)\<lparr> reason := Some ''Response is null'' \<rparr>) fr0
              in (Inr (analysisObj fr), self fr))
         | JArr xs \<Rightarrow>
             (let fr1 = fr0\<lparr> analysisObj := (analysisObj fr0)\<lparr> arrayLength := Some (length xs) \<rparr> \<rparr>
              in case xs of
                   [] \<Rightarrow> finish (push ((check ''array'' INFO)\<lparr> reason := Some ''Empty array response'' \<rparr>) fr1)
                 | firstItem # rest \<Rightarrow>
                     (case ownProperties firstItem of
                        None \<Rightarrow> (Inl TypeError, self fr1)
                      | Some props \<Rightarrow>
                          (case recordFields props (setStructure ''fields'' (Fields (map fst props)) fr1) of
                             (Some e, fr2) \<Rightarrow> (Inl e, self fr2)
                           | (None, fr2) \<Rightarrow>
                               finish (pushAll (dateCheck h firstItem)
                                 (pushAll (accountIdCheck firstItem)
                                   (pushAll (amountCheck firstItem)
                                     (checkFields props transactionFields fr2)))))))
         | JObj kvs \<Rightarrow>
             (case recordFields kvs (setStructure ''fields'' (Fields (map fst kvs)) fr0) of
                (Some e, fr2) \<Rightarrow> (Inl e, self fr2)
              | (None, fr2) \<Rightarrow> finish (checkFields kvs accountFields fr2))
         | _ \<Rightarrow>
             finish (push ((check ''response'' INFO)\<lparr> val := Some jsonData,
                              ctype := Some (typeof jsonData) \<rparr>)
                       (setStructure ''value'' (Value jsonData) fr0)))"

section \<open>The prober: findTransactionsByAmount and its siblings\<close>

text \<open>
  What \<^verbatim>\<open>requestContext.get\<close> or \<^verbatim>\<open>post\<close> gives back: the request throws, or there is a
  response with a status, \<^verbatim>\<open>json()\<close> (\<open>None\<close> when it throws), \<^verbatim>\<open>text()\<close> (\<open>None\<close> when
  it throws) and headers. The network is a parameter; its answer may depend on how many
  requests the call has issued before, on the method and on the URL.
\<close>

record response =
  httpStatus :: nat
  jsonBody :: "json option"
  textBody :: "string option"
  headers :: "(string \<times> string) list"

datatype reply = RequestFails | Reply response

type_synonym network = "nat \<Rightarrow> string \<Rightarrow> string \<Rightarrow> reply"

type_synonym request = "string \<times> string"

text \<open>
  The \<^verbatim>\<open>analysis\<close> of a result is either what \<^verbatim>\<open>analyzeJsonResponse\<close> returned or an
  object literal with an optional \<^verbatim>\<open>type\<close>, the validations and a summary written by hand.
\<close>

datatype verdict = Analysed analysis | Stated "string option" "fieldCheck list" counts

fun verdictValidations :: "verdict \<Rightarrow> fieldCheck list" where
  "verdictValidations (Analysed a) = validations a"
| "verdictValidations (Stated t vs c) = vs"

fun verdictSummary :: "verdict \<Rightarrow> counts option" where
  "verdictSummary (Analysed a) = summary a"
| "verdictSummary (Stated t vs c) = Some c"

record probeResult =
  r_status :: nat
  r_data :: json
  r_headers :: "(string \<times> string) list option"
  r_endpoint :: string
  r_analysis :: verdict
  originalData :: "json option"

subsection \<open>The amount filter\<close>

text \<open>
  The callback of \<^verbatim>\<open>jsonData.filter\<close>. Reading \<^verbatim>\<open>transaction.amount\<close> throws on a null
  element; a truthy amount is converted by \<^verbatim>\<open>parseFloat\<close>, which throws when the
  amount does not print, and the comparison of the two doubles is the host's.
\<close>

definition amountMatches :: "host \<Rightarrow> string \<Rightarrow> json \<Rightarrow> error + bool" where
  "amountMatches h amount transaction =
     (if transaction = JNull then Inl TypeError
      else case getProperty transaction ''amount'' of
             None \<Rightarrow> Inr False
           | Some a \<Rightarrow>
               if truthy a
               then (if printable a then Inr (amountNear h a amount) else Inl TypeError)
               else Inr False)"

fun filterMatches :: "host \<Rightarrow> string \<Rightarrow> json list \<Rightarrow> error + json list" where
  "filterMatches h amount [] = Inr []"
| "filterMatches h amount (t # ts) =
     (case amountMatches h amount t of
        Inl e \<Rightarrow> Inl e
      | Inr b \<Rightarrow> (case filterMatches h amount ts of
                   Inl e \<Rightarrow> Inl e
                 | Inr ms \<Rightarrow> Inr (if b then t # ms else ms)))"

text \<open>Logging a match prints \<^verbatim>\<open>match.id || 'N/A'\<close> and \<^verbatim>\<open>match.date || 'N/A'\<close>.\<close>

definition matchLoggable :: "json \<Rightarrow> bool" where
  "matchLoggable m = list_all (\<lambda>name. case getProperty m name of
       None \<Rightarrow> True | Some v \<Rightarrow> \<not> truthy v \<or> printable v) [''id'', ''date'']"

definition filteredData :: "host \<Rightarrow> string \<Rightarrow> json \<Rightarrow> error + json" where
  "filteredData h amount jsonData = (case jsonData of
       JArr xs \<Rightarrow>
         (case filterMatches h amount xs of
            Inl e \<Rightarrow> Inl e
          | Inr matches \<Rightarrow>
              if matches \<noteq> []
              then (if list_all matchLoggable matches then Inr (JArr matches) else Inl TypeError)
              else Inr jsonData)
     | _ \<Rightarrow> Inr jsonData)"

subsection \<open>Captured endpoints\<close>

definition isTransactionEndpoint :: "string \<Rightarrow> captured \<Rightarrow> bool" where
  "isTransactionEndpoint accountId ep =
     (includesStr (endpoint ep) ''transaction'' \<or>
      includesStr (endpoint ep) ''findtrans'' \<or>
      includesStr (endpoint ep) ''account'' \<and> includesStr (endpoint ep) accountId)"

text \<open>
  One iteration of the loop over the captured endpoints: the result it returns, if any,
  and the requests it issued. Every exception is caught and the loop goes on; a method
  other than GET and POST leaves \<^verbatim>\<open>response\<close> undefined, so no request is issued.
\<close>

definition tryCaptured ::
  "host \<Rightarrow> network \<Rightarrow> nat \<Rightarrow> string \<Rightarrow> captured \<Rightarrow> probeResult option \<times> request list" where
  "tryCaptured h net n amount c =
     (if httpMethod c = ''GET'' \<or> httpMethod c = ''POST''
      then (case net n (httpMethod c) (endpoint c) of
              RequestFails \<Rightarrow> (None, [(httpMethod c, endpoint c)])
            | Reply r \<Rightarrow>
                if httpStatus r = 200
                then (case jsonBody r of
                        None \<Rightarrow> (None, [(httpMethod c, endpoint c)])
                      | Some jsonData \<Rightarrow>
                          (case analyzeJsonResponse h jsonData (endpoint c) of
                             Inl e \<Rightarrow> (None, [(httpMethod c, endpoint c)])
                           | Inr a \<Rightarrow>
                               (case filteredData h amount jsonData of
                                  Inl e \<Rightarrow> (None, [(httpMethod c, endpoint c)])
                                | Inr fd \<Rightarrow>
                                    (Some \<lparr> r_status = httpStatus r, r_data = fd,
                                       r_headers = Some (headers r), r_endpoint = endpoint c,
                                       r_analysis = Analysed a, originalData = Some jsonData \<rparr>,
                                     [(httpMethod c, endpoint c)]))))
                else (None, [(httpMethod c, endpoint c)]))
      else (None, []))"

fun capturedLoop ::
  "host \<Rightarrow> network \<Rightarrow> nat \<Rightarrow> string \<Rightarrow> captured list \<Rightarrow> probeResult option \<times> request list" where
  "capturedLoop h net n amount [] = (None, [])"
| "capturedLoop h net n amount (c # cs) =
     (case tryCaptured h net n amount c of
        (Some res, tr) \<Rightarrow> (Some res, tr)
      | (None, tr) \<Rightarrow>
          (let (res, tr') = capturedLoop h net (n + length tr) amount cs
           in (res, tr @ tr')))"

subsection \<open>Static endpoints\<close>

definition fallbackEndpoints :: "string \<Rightarrow> string list" where
  "fallbackEndpoints accountId =
     [''/services/bank/accounts/'' @ accountId @ ''/transactions'',
      ''/services/bank/transactions/account/'' @ accountId,
      ''/activity.htm?id='' @ accountId,
      ''/overview.htm'',
      ''/findtrans.htm'']"

definition htmlSummary :: counts where
  "htmlSummary = \<lparr> passed = 0, failed = 0, missing = 0, info = 1 \<rparr>"

definition notFoundSummary :: counts where
  "notFoundSummary = \<lparr> passed = 0, failed = 1, missing = 0, info = 0 \<rparr>"

definition htmlCheck :: fieldCheck where
  "htmlCheck = (check ''response'' INFO)\<lparr> reason := Some ''HTML response'' \<rparr>"

text \<open>The data and the validations that findTransactionsByAmount writes for a text body.\<close>

definition transactionsHtml :: "string \<Rightarrow> string \<Rightarrow> string \<Rightarrow> json \<times> fieldCheck list" where
  "transactionsHtml accountId amount textContent =
     (let containsAccount = includesStr textContent accountId;
          containsAmount = includesStr textContent amount
      in (JObj [(''html'', JStr textContent), (''containsAccount'', JBool containsAccount),
                (''containsAmount'', JBool containsAmount)],
          [htmlCheck,
           (check ''accountReference'' (if containsAccount then PASS else FAIL))
              \<lparr> val := Some (JBool containsAccount) \<rparr>,
           (check ''amountReference'' (if containsAmount then PASS else FAIL))
              \<lparr> val := Some (JBool containsAmount) \<rparr>]))"

text \<open>The same for getAccountDetails and getTransactions.\<close>

definition plainHtml :: "string \<Rightarrow> json \<times> fieldCheck list" where
  "plainHtml textContent = (JObj [(''html'', JStr textContent)], [htmlCheck])"

text \<open>
  One iteration of a loop over static endpoints, which the three probing methods share
  up to the text-body result and the \<^verbatim>\<open>headers\<close> property (\<open>withHeaders\<close>). When
  \<^verbatim>\<open>json()\<close> or the analysis throws, the handler reads \<^verbatim>\<open>text()\<close> and returns the
  text-body result; when that throws too, the loop goes on.
\<close>

definition tryStatic ::
  "host \<Rightarrow> network \<Rightarrow> nat \<Rightarrow> bool \<Rightarrow> (string \<Rightarrow> json \<times> fieldCheck list) \<Rightarrow> string
     \<Rightarrow> probeResult option" where
  "tryStatic h net n withHeaders html ep =
     (case net n ''GET'' ep of
        RequestFails \<Rightarrow> None
      | Reply r \<Rightarrow>
          if httpStatus r = 200
          then (case (case jsonBody r of
                        None \<Rightarrow> None
                      | Some jsonData \<Rightarrow>
                          (case analyzeJsonResponse h jsonData ep of
                             Inl e \<Rightarrow> None
                           | Inr a \<Rightarrow> Some (jsonData, a))) of
                  Some (jsonData, a) \<Rightarrow>
                    Some \<lparr> r_status = httpStatus r, r_data = jsonData,
                      r_headers = (if withHeaders then Some (headers r) else None),
                      r_endpoint = ep, r_analysis = Analysed a, originalData = None \<rparr>
                | None \<Rightarrow>
                    (case textBody r of
                       None \<Rightarrow> None
                     | Some textContent \<Rightarrow>
                         Some \<lparr> r_status = httpStatus r, r_data = fst (html textContent),
                           r_headers = (if withHeaders then Some (headers r) else None),
                           r_endpoint = ep,
                           r_analysis = Stated (Some ''html'') (snd (html textContent)) htmlSummary,
                           originalData = None \<rparr>))
          else None)"

fun staticLoop ::
  "host \<Rightarrow> network \<Rightarrow> nat \<Rightarrow> bool \<Rightarrow> (string \<Rightarrow> json \<times> fieldCheck list) \<Rightarrow> string list
     \<Rightarrow> probeResult option \<times> request list" where
  "staticLoop h net n withHeaders html [] = (None, [])"
| "staticLoop h net n withHeaders html (ep # eps) =
     (case tryStatic h net n withHeaders html ep of
        Some res \<Rightarrow> (Some res, [(''GET'', ep)])
      | None \<Rightarrow>
          (let (res, tr) = staticLoop h net (Suc n) withHeaders html eps
           in (res, (''GET'', ep) # tr)))"

definition notFound :: "json \<Rightarrow> bool \<Rightarrow> string \<Rightarrow> probeResult" where
  "notFound d withHeaders why =
     \<lparr> r_status = 404, r_data = d, r_headers = (if withHeaders then Some [] else None),
       r_endpoint = ''none'',
       r_analysis = Stated None [(check ''response'' FAIL)\<lparr> reason := Some why \<rparr>] notFoundSummary,
       originalData = None \<rparr>"

definition ensureInit :: "apiHelper \<Rightarrow> apiHelper" where
  "ensureInit s = (if requestContext s = None then init s else s)"

text \<open>
  \<^verbatim>\<open>findTransactionsByAmount(accountId, amount)\<close>: the result, the requests issued in
  order, and the helper afterwards.
\<close>

definition findTransactionsByAmount ::
  "host \<Rightarrow> network \<Rightarrow> string \<Rightarrow> string \<Rightarrow> apiHelper
     \<Rightarrow> probeResult \<times> request list \<times> apiHelper" where
  "findTransactionsByAmount h net accountId amount s =
     (let s1 = ensureInit s;
          transactionEndpoints = filter (isTransactionEndpoint accountId) (capturedEndpoints s1)
      in case capturedLoop h net 0 amount transactionEndpoints of
           (Some res, tr) \<Rightarrow> (res, tr, s1)
         | (None, tr) \<Rightarrow>
             (case staticLoop h net (length tr) True
                     (transactionsHtml accountId amount) (fallbackEndpoints accountId) of
                (Some res, tr') \<Rightarrow> (res, tr @ tr', s1)
              | (None, tr') \<Rightarrow>
                  (notFound JNull True ''No API endpoints returned data'', tr @ tr', s1)))"

definition getAccountDetails ::
  "host \<Rightarrow> network \<Rightarrow> string \<Rightarrow> apiHelper \<Rightarrow> probeResult \<times> request list \<times> apiHelper" where
  "getAccountDetails h net accountId s =
     (let s1 = ensureInit s
      in case staticLoop h net 0 False plainHtml
                [''/services/bank/accounts/'' @ accountId,
                 ''/activity.htm?id='' @ accountId,
                 ''/overview.htm''] of
           (Some res, tr) \<Rightarrow> (res, tr, s1)
         | (None, tr) \<Rightarrow> (notFound JNull False ''No account endpoints returned data'', tr, s1))"

definition getTransactions ::
  "host \<Rightarrow> network \<Rightarrow> string \<Rightarrow> apiHelper \<Rightarrow> probeResult \<times> request list \<times> apiHelper" where
  "getTransactions h net accountId s =
     (let s1 = ensureInit s
      in case staticLoop h net 0 False plainHtml
                [''/services/bank/accounts/'' @ accountId @ ''/transactions'',
                 ''/activity.htm?id='' @ accountId,
                 ''/findtrans.htm''] of
           (Some res, tr) \<Rightarrow> (res, tr, s1)
         | (None, tr) \<Rightarrow>
             (notFound (JArr []) False ''No transaction endpoints returned data'', tr, s1))"

subsection \<open>The operations of the helper\<close>

datatype apiOp =
    OpInit
  | OpStore nat nat string string json
  | OpGetCapturedEndpoints
  | OpGetJsonResponses
  | OpAnalyze json string
  | OpFindTransactionsByAmount network string string
  | OpGetAccountDetails network string
  | OpGetTransactions network string
  | OpDispose

datatype returned =
    NoOutput
  | CapturedOut "captured list"
  | ResponsesOut "jsonResponse list"
  | AnalysisOut "error + analysis"
  | ProbeOut probeResult "request list"

text \<open>
  A method call on the helper: what it returns and the helper afterwards. The two
  getters return a log as it is; \<^verbatim>\<open>dispose\<close> disposes the context and keeps the
  reference.
\<close>

fun run :: "host \<Rightarrow> apiHelper \<Rightarrow> apiOp \<Rightarrow> returned \<times> apiHelper" where
  "run h s OpInit = (NoOutput, init s)"
| "run h s (OpStore t1 t2 ep m d) = (NoOutput, storeCapturedEndpoint t1 t2 ep m d s)"
| "run h s OpGetCapturedEndpoints = (CapturedOut (getCapturedEndpoints s), s)"
| "run h s OpGetJsonResponses = (ResponsesOut (getJsonResponses s), s)"
| "run h s (OpAnalyze j ep) =
     (case analyzeJsonResponseCall h j ep s of (res, s') \<Rightarrow> (AnalysisOut res, s'))"
| "run h s (OpFindTransactionsByAmount net accountId amount) =
     (case findTransactionsByAmount h net accountId amount s of
        (res, tr, s') \<Rightarrow> (ProbeOut res tr, s'))"
| "run h s (OpGetAccountDetails net accountId) =
     (case getAccountDetails h net accountId s of (res, tr, s') \<Rightarrow> (ProbeOut res tr, s'))"
| "run h s (OpGetTransactions net accountId) =
     (case getTransactions h net accountId s of (res, tr, s') \<Rightarrow> (ProbeOut res tr, s'))"
| "run h s OpDispose = (NoOutput, s)"

definition exec :: "host \<Rightarrow> apiHelper \<Rightarrow> apiOp \<Rightarrow> apiHelper" where
  "exec h s op = snd (run h s op)"

section \<open>DataGenerator: usernames\<close>

text \<open>
  The sources of randomness are parameters: \<open>r\<close> is the number read from
  \<^verbatim>\<open>crypto.randomBytes(6)\<close> and \<open>t\<close> the reading of \<^verbatim>\<open>process.hrtime.bigint()\<close>. Six
  bytes print as twelve hexadecimal digits; \<^verbatim>\<open>slice(-8)\<close> keeps the last eight
  characters.
\<close>

definition hexDigit :: "nat \<Rightarrow> char" where
  "hexDigit d = (if d < 10 then digitChar d else char_of (87 + d))"

fun hexN :: "nat \<Rightarrow> nat \<Rightarrow> string" where
  "hexN 0 v = []"
| "hexN (Suc k) v = hexN k (v div 16) @ [hexDigit (v mod 16)]"

definition sliceLast :: "nat \<Rightarrow> string \<Rightarrow> string" where
  "sliceLast k s = drop (length s - k) s"

definition generateSequentialUsername :: "nat \<times> nat \<Rightarrow> nat \<Rightarrow> string" where
  "generateSequentialUsername e attempt =
     (let nanoTime = sliceLast 8 (showNat (snd e));
          randomHex = hexN 12 (fst e);
          attemptSuffix = (if attempt > 0 then ''a'' @ showNat attempt else [])
      in take 32 (''usr'' @ randomHex @ nanoTime @ attemptSuffix))"

text \<open>
  \<^verbatim>\<open>generateUniqueUsername\<close>: \<open>h\<close> stands for the first twelve hexadecimal digits of the
  SHA-256 digest and \<open>now\<close> for \<^verbatim>\<open>Date.now()\<close>.
\<close>

definition generateUniqueUsername :: "nat \<Rightarrow> nat \<Rightarrow> string" where
  "generateUniqueUsername h now = ''u'' @ hexN 12 h @ sliceLast 6 (showNat now)"

section \<open>RegisterPage: registerUser\<close>

record userData =
  firstName :: string
  lastName :: string
  address :: string
  city :: string
  state :: string
  zipCode :: string
  phoneNumber :: string
  ssn :: string
  username :: string
  password :: string

text \<open>
  The page that one attempt inspects once it has navigated, filled the form and
  submitted: \<open>visible\<close> is \<^verbatim>\<open>isElementVisible\<close>, \<open>url\<close> is \<^verbatim>\<open>page.url()\<close> and
  \<open>textContent\<close> is \<^verbatim>\<open>getTextContent\<close>, neither of which throws. The browser is a
  parameter: what an attempt reaches depends on the attempt and on the data submitted,
  and is \<open>None\<close> when \<^verbatim>\<open>navigateToRegister\<close>, \<^verbatim>\<open>fillRegistrationForm\<close> or
  \<^verbatim>\<open>submitRegistration\<close> throws, so that there is no page to inspect. The page is
  taken not to change while an attempt inspects it, and the pauses between attempts
  (\<^verbatim>\<open>waitForTimeout\<close>) to return.
\<close>

record page =
  visible :: "string \<Rightarrow> bool"
  url :: string
  textContent :: "string \<Rightarrow> string"

type_synonym browser = "nat \<Rightarrow> userData \<Rightarrow> page option"

text \<open>
  \<^verbatim>\<open>toLowerCase\<close> on code units below 256: the letters A to Z, and the accented
  capitals from 192 to 222 but for the multiplication sign.
\<close>

definition toLowerCase :: "string \<Rightarrow> string" where
  "toLowerCase s = map (\<lambda>c. let n = (of_char c :: nat) in
     if (65 \<le> n \<and> n \<le> 90) \<or> (192 \<le> n \<and> n \<le> 222 \<and> n \<noteq> 215)
     then char_of (n + 32) else c) s"

definition hasUsernameExistsError :: "page \<Rightarrow> bool" where
  \<open>hasUsernameExistsError p = list_ex (visible p)
     [''td:has-text("This username already exists")'',
      ''span:has-text("This username already exists")'',
      ''.error:has-text("username")'',
      ''*:has-text("username already exists")'']\<close>

definition hasPasswordError :: "page \<Rightarrow> bool" where
  \<open>hasPasswordError p = list_ex (visible p)
     [''td:has-text("Password is required")'',
      ''td:has-text("Password confirmation is required")'',
      ''span:has-text("Password")'',
      ''.error:has-text("password")'']\<close>

definition verifyRegistrationSuccess :: "page \<Rightarrow> bool" where
  \<open>verifyRegistrationSuccess p =
     (let currentUrl = url p
      in if includesStr currentUrl ''overview'' \<or> includesStr currentUrl ''account'' \<or>
            includesStr currentUrl ''welcome''
         then True
         else if list_ex (\<lambda>selector. visible p selector \<and>
                   (let text = toLowerCase (textContent p selector)
                    in includesStr text ''welcome'' \<or> includesStr text ''successfully'' \<or>
                       includesStr text ''created''))
                 [''#rightPanel h1'', ''.title'', ''h1:has-text("Welcome")'', ''text=Welcome'',
                  ''*:has-text("successfully")'', ''*:has-text("created")'']
         then True
         else list_ex (visible p)
                [''a[href*="overview"]'', ''a[href*="transfer"]'', ''a[href*="billpay"]'',
                 ''a:has-text("Accounts Overview")'', ''a:has-text("Transfer Funds")''])\<close>

text \<open>
  The body of the loop of \<^verbatim>\<open>registerUser\<close> for one attempt: it returns true, or the
  loop goes on with the user data as the body left it. \<open>e\<close> is the randomness that
  \<^verbatim>\<open>generateSequentialUsername(attempt)\<close> would draw.
\<close>

datatype step = ReturnTrue | NextAttempt userData

definition attemptBody :: "nat \<times> nat \<Rightarrow> page option \<Rightarrow> nat \<Rightarrow> nat \<Rightarrow> userData \<Rightarrow> step" where
  "attemptBody e reached maxAttempts attempt ud =
     (let renamed = ud\<lparr> username := generateSequentialUsername e attempt \<rparr>
      in case reached of
           None \<Rightarrow> (if attempt < maxAttempts then NextAttempt renamed else NextAttempt ud)
         | Some p \<Rightarrow>
           let hasUsernameError = hasUsernameExistsError p;
               hasPasswordErr = hasPasswordError p;
               afterErrors =
                 (if verifyRegistrationSuccess p then ReturnTrue
                  else if attempt < maxAttempts then NextAttempt renamed else NextAttempt ud);
               afterUsername =
                 (if hasPasswordErr
                  then (if attempt < maxAttempts then NextAttempt ud else afterErrors)
                  else afterErrors)
           in if hasUsernameError
              then (if attempt < maxAttempts then NextAttempt renamed else afterUsername)
              else afterUsername)"

text \<open>
  The loop from \<open>attempt\<close> on: the boolean returned, the user data as the caller finds
  it afterwards, and the username of every attempt made, in order.
\<close>

function registerLoop ::
  "(nat \<Rightarrow> nat \<times> nat) \<Rightarrow> browser \<Rightarrow> nat \<Rightarrow> nat \<Rightarrow> userData \<Rightarrow> bool \<times> userData \<times> string list" where
  "registerLoop ent br maxAttempts attempt ud =
     (if attempt \<le> maxAttempts
      then (case attemptBody (ent attempt) (br attempt ud) maxAttempts attempt ud of
              ReturnTrue \<Rightarrow> (True, ud, [username ud])
            | NextAttempt ud' \<Rightarrow>
                (case registerLoop ent br maxAttempts (Suc attempt) ud' of
                   (res, final, names) \<Rightarrow> (res, final, username ud # names)))
      else (False, ud, []))"
  by pat_completeness auto
termination
  by (relation "measure (\<lambda>(ent, br, maxAttempts, attempt, ud). Suc maxAttempts - attempt)") auto

declare registerLoop.simps [simp del]

definition registerUser ::
  "(nat \<Rightarrow> nat \<times> nat) \<Rightarrow> browser \<Rightarrow> userData \<Rightarrow> bool \<times> userData \<times> string list" where
  "registerUser ent br ud = registerLoop ent br 10 1 ud"

section \<open>Reference definitions and sample inputs\<close>

text \<open>
  The summary as the specification words it: a fold over the sequence of checks that
  counts each check under its status.
\<close>

definition tally :: "counts \<Rightarrow> fieldCheck \<Rightarrow> counts" where
  "tally c v = (case status v of
       PASS \<Rightarrow> c\<lparr> passed := Suc (passed c) \<rparr>
     | FAIL \<Rightarrow> c\<lparr> failed := Suc (failed c) \<rparr>
     | MISSING \<Rightarrow> c\<lparr> missing := Suc (missing c) \<rparr>
     | INFO \<Rightarrow> c\<lparr> info := Suc (info c) \<rparr>)"

definition foldSummary :: "fieldCheck list \<Rightarrow> counts" where
  "foldSummary vs = foldl tally \<lparr> passed = 0, failed = 0, missing = 0, info = 0 \<rparr> vs"

text \<open>How many checks of a verdict name the field \<open>f\<close> with a status from \<open>sts\<close>.\<close>

definition countField :: "string \<Rightarrow> status list \<Rightarrow> fieldCheck list \<Rightarrow> nat" where
  "countField f sts vs = length (filter (\<lambda>v. field v = f \<and> status v \<in> set sts) vs)"

text \<open>A server that answers every request with status 200 and a page of markup.\<close>

definition htmlNetwork :: network where
  "htmlNetwork n m u = Reply \<lparr> httpStatus = 200, jsonBody = None,
     textBody = Some ''<html><body>Account 12345</body></html>'', headers = [] \<rparr>"

text \<open>
  The comparison of the amount filter carried out on the exact values. It is what the
  host computes whenever the two amounts are the same decimal, as in the samples below.
\<close>

fun absN :: "jsnum \<Rightarrow> jsnum" where
  "absN (Fin r) = Fin \<bar>r\<bar>"
| "absN PosInf = PosInf"
| "absN NegInf = PosInf"
| "absN NaN = NaN"

fun subN :: "jsnum \<Rightarrow> jsnum \<Rightarrow> jsnum" where
  "subN (Fin a) (Fin b) = Fin (a - b)"
| "subN NaN y = NaN"
| "subN x NaN = NaN"
| "subN PosInf PosInf = NaN"
| "subN NegInf NegInf = NaN"
| "subN PosInf y = PosInf"
| "subN NegInf y = NegInf"
| "subN x PosInf = NegInf"
| "subN x NegInf = PosInf"

fun lessN :: "jsnum \<Rightarrow> rat \<Rightarrow> bool" where
  "lessN (Fin a) b = (a < b)"
| "lessN NegInf b = True"
| "lessN x b = False"

definition nearExact :: "json \<Rightarrow> string \<Rightarrow> bool" where
  "nearExact a amount =
     (let transactionAmount = absN (parseFloatJ a);
          searchAmount = parseFloat amount
      in lessN (absN (subN transactionAmount searchAmount)) (1 / 100))"

text \<open>A host for the samples, none of which has a date.\<close>

definition noDates :: host where
  "noDates = \<lparr> dateParses = (\<lambda>v. False), amountNear = nearExact \<rparr>"

text \<open>The secondary checks of the array branch, in the order they are made.\<close>

definition secondaryChecks :: "host \<Rightarrow> json \<Rightarrow> fieldCheck list" where
  "secondaryChecks h item = amountCheck item @ accountIdCheck item @ dateCheck h item"

text \<open>A transaction as the bank serves it, with the amount as text and no description.\<close>

definition sampleTransaction :: json where
  "sampleTransaction = JObj [(''id'', JNum (Fin 14476)), (''accountId'', JNum (Fin 13344)),
     (''type'', JStr ''Debit''), (''amount'', JStr ''35.68'')]"

text \<open>
  The candidates of findTransactionsByAmount in the order its two loops walk them: the
  captured endpoints that pass the filter, in the order of the log, then the static
  endpoints. Only a GET or a POST candidate leads to a request.
\<close>

definition capturedCandidates :: "string \<Rightarrow> apiHelper \<Rightarrow> request list" where
  "capturedCandidates accountId s =
     map (\<lambda>c. (httpMethod c, endpoint c)) (filter (isTransactionEndpoint accountId) (capturedEndpoints s))"

definition candidateList :: "string \<Rightarrow> apiHelper \<Rightarrow> request list" where
  "candidateList accountId s =
     capturedCandidates accountId s @ map (Pair ''GET'') (fallbackEndpoints accountId)"

definition issuable :: "request \<Rightarrow> bool" where
  "issuable rq = (fst rq = ''GET'' \<or> fst rq = ''POST'')"

text \<open>
  The candidate list as the specification words it: the matching captured calls
  most-recent-first, then the static candidates.
\<close>

definition specCandidateList :: "string \<Rightarrow> apiHelper \<Rightarrow> request list" where
  "specCandidateList accountId s =
     map (\<lambda>c. (httpMethod c, endpoint c))
       (rev (filter (isTransactionEndpoint accountId) (capturedEndpoints s)))
     @ map (Pair ''GET'') (fallbackEndpoints accountId)"


text \<open>
  A helper that has captured two transaction calls, the older at time 1 and the newer
  at time 2; a network on which every request fails; and a network on which one URL
  answers with a given status and JSON body while every other request fails.
\<close>

definition twoCaptured :: apiHelper where
  "twoCaptured = storeCapturedEndpoint 2 2 ''/transaction/new'' ''GET'' JNull
     (storeCapturedEndpoint 1 1 ''/transaction/old'' ''GET'' JNull constructor)"

definition deadNetwork :: network where
  "deadNetwork n m u = RequestFails"

definition answers :: "string \<Rightarrow> nat \<Rightarrow> json \<Rightarrow> network" where
  "answers u0 st body n m u =
     (if u = u0 then Reply \<lparr> httpStatus = st, jsonBody = Some body, textBody = Some [],
        headers = [] \<rparr> else RequestFails)"

text \<open>The usernames that the retries after the attempts \<open>a\<close>, ..., \<open>b - 1\<close> generate.\<close>

definition retryNames :: "(nat \<Rightarrow> nat \<times> nat) \<Rightarrow> nat \<Rightarrow> nat \<Rightarrow> string list" where
  "retryNames ent a b = map (\<lambda>k. generateSequentialUsername (ent k) k) [a..<b]"

text \<open>
  A user, a source of randomness, and three pages of the registration form: one that
  shows the username conflict, one that shows the conflict together with a link to the
  accounts overview left from an earlier state, and one that shows no indicator at all.
\<close>

definition sampleUser :: userData where
  "sampleUser = \<lparr> firstName = ''Ada'', lastName = ''Byron'', address = ''1 Main St'',
     city = ''Springfield'', state = ''IL'', zipCode = ''62701'', phoneNumber = ''555-010-0000'',
     ssn = ''123-45-6789'', username = generateUniqueUsername 1250999896491 1762160400123,
     password = ''TestPass123!'' \<rparr>"

definition sampleEntropy :: "nat \<Rightarrow> nat \<times> nat" where
  "sampleEntropy k = (1000 * k + 7, 123456789 + k)"

definition registerUrl :: string where
  "registerUrl = ''https://parabank.parasoft.com/parabank/register.htm''"

definition conflictPage :: page where
  \<open>conflictPage = \<lparr> visible = (\<lambda>selector. selector = ''td:has-text("This username already exists")''),
     url = registerUrl, textContent = (\<lambda>selector. []) \<rparr>\<close>

definition staleSuccessPage :: page where
  \<open>staleSuccessPage = \<lparr> visible = (\<lambda>selector.
       selector = ''td:has-text("This username already exists")'' \<or> selector = ''a[href*="overview"]''),
     url = registerUrl, textContent = (\<lambda>selector. []) \<rparr>\<close>


text \<open>
  Browsers that reach the same page on every attempt, and one that shows the conflict on
  every attempt and the stale link on the tenth only.
\<close>

definition conflictBrowser :: browser where
  "conflictBrowser k ud = Some conflictPage"

definition staleBrowser :: browser where
  "staleBrowser k ud = Some staleSuccessPage"


definition lateStaleBrowser :: browser where
  "lateStaleBrowser k ud = Some (if k = 10 then staleSuccessPage else conflictPage)"

text \<open>A first element whose amount is no number.\<close>

definition badAmountTransaction :: json where
  "badAmountTransaction = JObj [(''id'', JNum (Fin 14477)), (''amount'', JStr ''abc'')]"

section \<open>The method call and the value it returns\<close>

lemma pushAll_eq:
  "pushAll vs fr = fr\<lparr> analysisObj := (analysisObj fr)\<lparr> validations := validations (analysisObj fr) @ vs \<rparr> \<rparr>"
  by (induction vs arbitrary: fr) (simp_all add: push_def)

lemma checkFields_eq:
  "checkFields props fs fr = pushAll (map (presenceCheck props) fs) fr"
  by (induction fs arbitrary: fr) simp_all

lemma recordFields_self: "self (snd (recordFields props fr)) = self fr"
  by (induction props arbitrary: fr) (auto simp: setStructure_def)

lemma recordFields_ok:
  "list_all (\<lambda>(k, v). printable v) props \<Longrightarrow>
   recordFields props fr =
     (None, fr\<lparr> analysisObj := (analysisObj fr)\<lparr> a_structure :=
              foldl (\<lambda>m (k, v). assign k (Entry (typeof v) v) m) (a_structure (analysisObj fr)) props \<rparr> \<rparr>)"
  by (induction props arbitrary: fr) (auto simp: setStructure_def)

lemma recordFields_throws:
  "\<not> list_all (\<lambda>(k, v). printable v) props \<Longrightarrow> fst (recordFields props fr) = Some TypeError"
  by (induction props arbitrary: fr) auto

lemma analyzeJsonResponseCall_eq:
  "analyzeJsonResponseCall h jsonData ep s = (analyzeJsonResponse h jsonData ep, s)"
proof (cases jsonData)
  case JNull
  then show ?thesis
    by (simp add: analyzeJsonResponseCall_def analyzeJsonResponse_def push_def)
next
  case (JBool b)
  then show ?thesis
    by (simp add: analyzeJsonResponseCall_def analyzeJsonResponse_def push_def setStructure_def
          assign_def finish_def withSummary_def)
next
  case (JNum n)
  then show ?thesis
    by (simp add: analyzeJsonResponseCall_def analyzeJsonResponse_def push_def setStructure_def
          assign_def finish_def withSummary_def)
next
  case (JStr t)
  then show ?thesis
    by (simp add: analyzeJsonResponseCall_def analyzeJsonResponse_def push_def setStructure_def
          assign_def finish_def withSummary_def)
next
  case (JArr xs)
  show ?thesis
  proof (cases xs)
    case Nil
    then show ?thesis using JArr
      by (simp add: analyzeJsonResponseCall_def analyzeJsonResponse_def push_def finish_def
            withSummary_def)
  next
    case (Cons firstItem rest)
    show ?thesis
    proof (cases "ownProperties firstItem")
      case None
      then show ?thesis using JArr Cons
        by (simp add: analyzeJsonResponseCall_def analyzeJsonResponse_def)
    next
      case (Some props)
      show ?thesis
      proof (cases "list_all (\<lambda>(k, v). printable v) props")
        case True
        then show ?thesis using JArr Cons Some
          by (simp add: analyzeJsonResponseCall_def analyzeJsonResponse_def recordFields_ok
                checkFields_eq pushAll_eq setStructure_def assign_def finish_def withSummary_def
                inventory_def)
      next
        case False
        let ?fr = "setStructure ''fields'' (Fields (map fst props))
            \<lparr> self = s, analysisObj = \<lparr> a_endpoint = ep, a_type = typeof jsonData,
                   a_isArray = isArray jsonData, a_structure = Map.empty, validations = [],
                   a_data = jsonData, arrayLength = Some (length xs), summary = None \<rparr> \<rparr>"
        obtain e fr2 where r: "recordFields props ?fr = (e, fr2)" by (cases "recordFields props ?fr")
        have "e = Some TypeError" using recordFields_throws [OF False, of ?fr] r by simp
        moreover have "self fr2 = s" using recordFields_self [of props ?fr] r
          by (simp add: setStructure_def)
        ultimately show ?thesis using JArr Cons Some False r
          by (simp add: analyzeJsonResponseCall_def analyzeJsonResponse_def)
      qed
    qed
  qed
next
  case (JObj kvs)
  show ?thesis
  proof (cases "list_all (\<lambda>(k, v). printable v) kvs")
    case True
    then show ?thesis using JObj
      by (simp add: analyzeJsonResponseCall_def analyzeJsonResponse_def recordFields_ok
            checkFields_eq pushAll_eq setStructure_def assign_def finish_def withSummary_def
            inventory_def)
  next
    case False
    let ?fr = "setStructure ''fields'' (Fields (map fst kvs))
            \<lparr> self = s, analysisObj = \<lparr> a_endpoint = ep, a_type = typeof jsonData,
                   a_isArray = isArray jsonData, a_structure = Map.empty, validations = [],
                   a_data = jsonData, arrayLength = None, summary = None \<rparr> \<rparr>"
    obtain e fr2 where r: "recordFields kvs ?fr = (e, fr2)" by (cases "recordFields kvs ?fr")
    have "e = Some TypeError" using recordFields_throws [OF False, of ?fr] r by simp
    moreover have "self fr2 = s" using recordFields_self [of kvs ?fr] r
      by (simp add: setStructure_def)
    ultimately show ?thesis using JObj False r
      by (simp add: analyzeJsonResponseCall_def analyzeJsonResponse_def)
  qed
qed

section \<open>The capture log is append-only\<close>

lemma store_captured [simp]:
  "capturedEndpoints (storeCapturedEndpoint t1 t2 ep m d s) =
     capturedEndpoints s @ [\<lparr> endpoint = ep, httpMethod = m, data = d, timestamp = t1 \<rparr>]"
  by (simp add: storeCapturedEndpoint_def Let_def)

lemma store_responses [simp]:
  "jsonResponses (storeCapturedEndpoint t1 t2 ep m d s) =
     (if truthy d
      then jsonResponses s @ [\<lparr> jr_endpoint = ep, jr_method = m, jr_response = d, jr_timestamp = t2 \<rparr>]
      else jsonResponses s)"
  by (simp add: storeCapturedEndpoint_def Let_def)

lemma ensureInit_logs [simp]:
  "capturedEndpoints (ensureInit s) = capturedEndpoints s"
  "jsonResponses (ensureInit s) = jsonResponses s"
  by (simp_all add: ensureInit_def init_def)

lemma find_state:
  "snd (snd (findTransactionsByAmount dp net accountId amount s)) = ensureInit s"
  by (simp add: findTransactionsByAmount_def Let_def split: prod.splits option.splits)

lemma account_state:
  "snd (snd (getAccountDetails dp net accountId s)) = ensureInit s"
  by (simp add: getAccountDetails_def Let_def split: prod.splits option.splits)

lemma transactions_state:
  "snd (snd (getTransactions dp net accountId s)) = ensureInit s"
  by (simp add: getTransactions_def Let_def split: prod.splits option.splits)

lemma exec_logs:
  "prefix (capturedEndpoints s) (capturedEndpoints (exec dp s op)) \<and>
   prefix (jsonResponses s) (jsonResponses (exec dp s op))"
proof (cases op)
  case (OpFindTransactionsByAmount net a b)
  have "snd (run dp s op) = ensureInit s"
    using find_state [of dp net a b s] OpFindTransactionsByAmount
    by (auto split: prod.splits)
  then show ?thesis by (simp add: exec_def)
next
  case (OpGetAccountDetails net a)
  have "snd (run dp s op) = ensureInit s"
    using account_state [of dp net a s] OpGetAccountDetails
    by (auto split: prod.splits)
  then show ?thesis by (simp add: exec_def)
next
  case (OpGetTransactions net a)
  have "snd (run dp s op) = ensureInit s"
    using transactions_state [of dp net a s] OpGetTransactions
    by (auto split: prod.splits)
  then show ?thesis by (simp add: exec_def)
next
  case (OpAnalyze j ep)
  then show ?thesis by (simp add: exec_def analyzeJsonResponseCall_eq)
qed (simp_all add: exec_def init_def)

lemma execs_logs:
  "prefix (capturedEndpoints s) (capturedEndpoints (foldl (exec dp) s ops)) \<and>
   prefix (jsonResponses s) (jsonResponses (foldl (exec dp) s ops))"
proof (induction ops arbitrary: s)
  case Nil
  show ?case by simp
next
  case (Cons op ops)
  from Cons.IH [of "exec dp s op"] exec_logs [of s dp op]
  show ?case by (auto intro: prefix_order.trans)
qed

text \<open>
  Claim C10, as the code has it. A call of \<^verbatim>\<open>storeCapturedEndpoint\<close> appends exactly one
  record (endpoint, method, data, timestamp) to the captured-endpoint log; it appends one
  record to the JSON-response log when the data is truthy and leaves that log as it is
  otherwise. No operation of the helper changes or removes an entry: after any sequence
  of operations each log still starts with what it held before, so neither gets shorter.
\<close>

theorem storeCapturedEndpoint_append_only:
  "capturedEndpoints (storeCapturedEndpoint t1 t2 ep m d s) =
     capturedEndpoints s @ [\<lparr> endpoint = ep, httpMethod = m, data = d, timestamp = t1 \<rparr>] \<and>
   jsonResponses (storeCapturedEndpoint t1 t2 ep m d s) =
     (if truthy d
      then jsonResponses s @ [\<lparr> jr_endpoint = ep, jr_method = m, jr_response = d, jr_timestamp = t2 \<rparr>]
      else jsonResponses s) \<and>
   prefix (capturedEndpoints s) (capturedEndpoints (foldl (exec dp) s ops)) \<and>
   prefix (jsonResponses s) (jsonResponses (foldl (exec dp) s ops)) \<and>
   length (capturedEndpoints s) \<le> length (capturedEndpoints (foldl (exec dp) s ops)) \<and>
   length (jsonResponses s) \<le> length (jsonResponses (foldl (exec dp) s ops))"
  using execs_logs [of s dp ops] by (simp add: prefix_length_le)

theorem storeCapturedEndpoint_append_only_witness:
  "capturedEndpoints (storeCapturedEndpoint 1 2 ''/services/bank/accounts/1'' ''GET''
      (JArr []) constructor) =
     [\<lparr> endpoint = ''/services/bank/accounts/1'', httpMethod = ''GET'', data = JArr [], timestamp = 1 \<rparr>] \<and>
   jsonResponses (storeCapturedEndpoint 1 2 ''/services/bank/accounts/1'' ''GET''
      (JArr []) constructor) =
     [\<lparr> jr_endpoint = ''/services/bank/accounts/1'', jr_method = ''GET'', jr_response = JArr [],
        jr_timestamp = 2 \<rparr>] \<and>
   jsonResponses (storeCapturedEndpoint 3 4 ''/services/bank/accounts/1'' ''POST''
      JNull constructor) = []"
  using storeCapturedEndpoint_append_only
          [of 1 2 "''/services/bank/accounts/1''" "''GET''" "JArr []" constructor noDates "[]"]
        storeCapturedEndpoint_append_only
          [of 3 4 "''/services/bank/accounts/1''" "''POST''" JNull constructor noDates "[]"]
  by (simp add: constructor_def)

text \<open>
  Claim C10 as stated fails on data that is not null but falsy: a response body \<^verbatim>\<open>0\<close> or
  \<^verbatim>\<open>false\<close> is not recorded in the JSON-response log.
\<close>

theorem storeCapturedEndpoint_falsy_data_counterexample:
  "JNum (Fin 0) \<noteq> JNull \<and> JBool False \<noteq> JNull \<and>
   jsonResponses (storeCapturedEndpoint 1 2 ''/services/bank/accounts/1'' ''GET''
      (JNum (Fin 0)) constructor) = jsonResponses constructor \<and>
   jsonResponses (storeCapturedEndpoint 1 2 ''/services/bank/accounts/1'' ''GET''
      (JBool False) constructor) = jsonResponses constructor"
  by (simp add: storeCapturedEndpoint_def constructor_def)

text \<open>
  Claim C8. Classifying the same raw input twice gives equal verdicts. The call of
  \<^verbatim>\<open>analyzeJsonResponse\<close>, run statement by statement on the helper, returns a verdict
  that is the same on every state of the helper, so whatever operations ran before and
  whatever the logs hold; and it leaves the helper exactly as it was, so that a second
  call straight after the first starts from the same state and returns the same verdict.
\<close>

theorem analyzeJsonResponse_stateless:
  "fst (analyzeJsonResponseCall h jsonData ep s) = fst (analyzeJsonResponseCall h jsonData ep s') \<and>
   snd (analyzeJsonResponseCall h jsonData ep s) = s \<and>
   fst (run h (foldl (exec h) s ops) (OpAnalyze jsonData ep)) = fst (run h s (OpAnalyze jsonData ep)) \<and>
   snd (run h s (OpAnalyze jsonData ep)) = s \<and>
   fst (run h (snd (run h s (OpAnalyze jsonData ep))) (OpAnalyze jsonData ep)) =
     fst (run h s (OpAnalyze jsonData ep))"
  by (simp add: analyzeJsonResponseCall_eq)

section \<open>The summary and the checks of a verdict\<close>

lemma tally_fields:
  "passed (tally c v) = passed c + (if status v = PASS then 1 else 0)"
  "failed (tally c v) = failed c + (if status v = FAIL then 1 else 0)"
  "missing (tally c v) = missing c + (if status v = MISSING then 1 else 0)"
  "info (tally c v) = info c + (if status v = INFO then 1 else 0)"
  by (cases "status v"; simp add: tally_def)+

lemma foldl_tally:
  "foldl tally c vs = \<lparr> passed = passed c + countStatus PASS vs, failed = failed c + countStatus FAIL vs,
     missing = missing c + countStatus MISSING vs, info = info c + countStatus INFO vs \<rparr>"
proof (induction vs arbitrary: c)
  case Nil
  show ?case by (simp add: countStatus_def)
next
  case (Cons v vs)
  have "foldl tally c (v # vs) = foldl tally (tally c v) vs" by simp
  also have "\<dots> = \<lparr> passed = passed (tally c v) + countStatus PASS vs,
      failed = failed (tally c v) + countStatus FAIL vs,
      missing = missing (tally c v) + countStatus MISSING vs,
      info = info (tally c v) + countStatus INFO vs \<rparr>"
    by (rule Cons.IH)
  also have "\<dots> = \<lparr> passed = passed c + countStatus PASS (v # vs),
      failed = failed c + countStatus FAIL (v # vs),
      missing = missing c + countStatus MISSING (v # vs),
      info = info c + countStatus INFO (v # vs) \<rparr>"
    by (simp add: tally_fields countStatus_def)
  finally show ?case .
qed

lemma summarise_fold: "summarise vs = foldSummary vs"
  by (simp add: summarise_def foldSummary_def foldl_tally)

lemma analyzeJsonResponse_summary:
  assumes "analyzeJsonResponse dp jsonData ep = Inr a" and "jsonData \<noteq> JNull"
  shows "summary a = Some (foldSummary (validations a))"
  using assms
  by (auto simp: analyzeJsonResponse_def withSummary_def summarise_fold Let_def
           split: json.splits list.splits option.splits if_splits)

text \<open>
  Claim C2 at the two branches it names. For a markup body the result carries the
  summary 0 passed, 0 failed, 0 missing, 1 info, while the fold over its three checks
  counts 1 passed, 1 failed and 1 info; for a null input the analysis is returned before
  any summary is set, while the fold over its single check counts 1 failed.
\<close>

theorem summary_not_fold_on_markup_and_null:
  "verdictSummary (r_analysis (fst (findTransactionsByAmount noDates htmlNetwork ''12345'' ''35.68'' constructor)))
     = Some \<lparr> passed = 0, failed = 0, missing = 0, info = 1 \<rparr> \<and>
   foldSummary (verdictValidations
      (r_analysis (fst (findTransactionsByAmount noDates htmlNetwork ''12345'' ''35.68'' constructor))))
     = \<lparr> passed = 1, failed = 1, missing = 0, info = 1 \<rparr> \<and>
   map_sum id summary (analyzeJsonResponse noDates JNull ''unknown'') = Inr None \<and>
   map_sum id (\<lambda>a. foldSummary (validations a)) (analyzeJsonResponse noDates JNull ''unknown'')
     = Inr \<lparr> passed = 0, failed = 1, missing = 0, info = 0 \<rparr>"
proof -
  let ?r = "findTransactionsByAmount noDates htmlNetwork ''12345'' ''35.68'' constructor"
  have v: "r_analysis (fst ?r) = Stated (Some ''html'')
      [htmlCheck,
       (check ''accountReference'' PASS)\<lparr> val := Some (JBool True) \<rparr>,
       (check ''amountReference'' FAIL)\<lparr> val := Some (JBool False) \<rparr>] htmlSummary"
    by (simp add: findTransactionsByAmount_def ensureInit_def init_def constructor_def
          fallbackEndpoints_def tryStatic_def htmlNetwork_def transactionsHtml_def Let_def)
  have n: "analyzeJsonResponse noDates JNull ''unknown'' =
      Inr \<lparr> a_endpoint = ''unknown'', a_type = ''object'', a_isArray = False,
            a_structure = Map.empty,
            validations = [(check ''response'' FAIL)\<lparr> reason := Some ''Response is null'' \<rparr>],
            a_data = JNull, arrayLength = None, summary = None \<rparr>"
    by (simp add: analyzeJsonResponse_def)
  show ?thesis
    unfolding v n
    by (simp add: htmlSummary_def htmlCheck_def check_def foldSummary_def tally_def)
qed

lemma array_validations:
  assumes "analyzeJsonResponse dp (JArr (firstItem # rest)) ep = Inr a"
  obtains props where "ownProperties firstItem = Some props"
    and "validations a = map (presenceCheck props) transactionFields @ amountCheck firstItem
           @ accountIdCheck firstItem @ dateCheck dp firstItem"
  using assms
  by (auto simp: analyzeJsonResponse_def withSummary_def Let_def split: option.splits if_splits)

lemma countField_append:
  "countField f sts (xs @ ys) = countField f sts xs + countField f sts ys"
  by (simp add: countField_def)

lemma presenceCheck_field: "field (presenceCheck props g) = g"
  by (simp add: presenceCheck_def check_def)

lemma presenceCheck_status:
  "status (presenceCheck props g) = (if g \<in> set (map fst props) then PASS else MISSING)"
  by (simp add: presenceCheck_def check_def)

lemma countField_presence:
  "countField f sts (map (presenceCheck props) gs) =
     (if (if f \<in> set (map fst props) then PASS else MISSING) \<in> set sts
      then length (filter (\<lambda>g. g = f) gs) else 0)"
  by (induction gs) (auto simp: countField_def presenceCheck_field presenceCheck_status)

lemma count_transactionFields:
  "f \<in> set transactionFields \<Longrightarrow> length (filter (\<lambda>g. g = f) transactionFields) = 1"
  by (auto simp: transactionFields_def)

lemma getProperty_present:
  "ownProperties item = Some props \<Longrightarrow> getProperty item name = Some v \<Longrightarrow> name \<in> set (map fst props)"
  by (auto simp: getProperty_def dest!: map_of_SomeD intro: rev_image_eqI)

lemma countField_amountCheck:
  "countField f sts (amountCheck item) =
     (case getProperty item ''amount'' of
        None \<Rightarrow> 0
      | Some v \<Rightarrow> if f = ''amount'' \<and> (if parseFloatJ v \<noteq> NaN then PASS else FAIL) \<in> set sts
                  then 1 else 0)"
  by (auto simp: countField_def amountCheck_def check_def Let_def split: option.splits)

lemma countField_accountIdCheck:
  "countField f sts (accountIdCheck item) =
     (case getProperty item ''accountId'' of
        None \<Rightarrow> 0
      | Some v \<Rightarrow> if f = ''accountId'' \<and> (if parseIntJ v \<noteq> NaN then PASS else FAIL) \<in> set sts
                  then 1 else 0)"
  by (auto simp: countField_def accountIdCheck_def check_def Let_def split: option.splits)

lemma countField_dateCheck:
  "countField f sts (dateCheck dp item) =
     (case getProperty item ''date'' of
        None \<Rightarrow> 0
      | Some v \<Rightarrow> if f = ''date'' \<and> (if dateParses dp v then PASS else FAIL) \<in> set sts then 1 else 0)"
  by (auto simp: countField_def dateCheck_def check_def Let_def split: option.splits)

lemma presenceCheck_getProperty:
  assumes "ownProperties item = Some props"
  shows "presenceCheck props f =
     (case getProperty item f of
        Some v \<Rightarrow> (check f PASS)\<lparr> val := Some v \<rparr>
      | None \<Rightarrow> (check f MISSING)\<lparr> reason := Some ''Field not found in response'' \<rparr>)"
proof (cases "map_of props f")
  case None
  then have "f \<notin> set (map fst props)" by (simp add: map_of_eq_None_iff)
  then show ?thesis using None assms by (simp add: presenceCheck_def getProperty_def)
next
  case (Some v)
  then have "f \<in> set (map fst props)" by (auto dest!: map_of_SomeD intro: rev_image_eqI)
  then show ?thesis using Some assms by (simp add: presenceCheck_def getProperty_def)
qed

lemma filter_presence:
  "filter (\<lambda>c. field c = f) (map (presenceCheck props) gs) =
     map (presenceCheck props) (filter (\<lambda>g. g = f) gs)"
  by (induction gs) (simp_all add: presenceCheck_field)

lemma only_transactionField:
  "f \<in> set transactionFields \<Longrightarrow> filter (\<lambda>g. g = f) transactionFields = [f]"
  by (auto simp: transactionFields_def)

text \<open>
  Claim C4, as the code has it. When the analysis of an array with a first element
  returns, every field of the transaction schema has exactly one presence check among
  the first six checks: PASS with the field's value if the first element has the field,
  MISSING otherwise. In the whole verdict the field has that check and, for amount,
  accountId and date, one more PASS check when the secondary validation of its value
  succeeds: one PASS-or-MISSING check for id, type and description, one or two for the
  other three. No field has both a PASS and a MISSING check.
\<close>

theorem schema_field_presence_checks:
  assumes "analyzeJsonResponse dp (JArr (firstItem # rest)) ep = Inr a"
    and "f \<in> set transactionFields"
  shows "filter (\<lambda>c. field c = f) (take 6 (validations a)) =
           [case getProperty firstItem f of
              Some v \<Rightarrow> (check f PASS)\<lparr> val := Some v \<rparr>
            | None \<Rightarrow> (check f MISSING)\<lparr> reason := Some ''Field not found in response'' \<rparr>] \<and>
         countField f [PASS, MISSING] (take 6 (validations a)) = 1 \<and>
         countField f [PASS, MISSING] (validations a) =
           1 + countField f [PASS] (secondaryChecks dp firstItem) \<and>
         countField f [PASS] (secondaryChecks dp firstItem) \<le> 1 \<and>
         (f \<in> set [''id'', ''type'', ''description''] \<longrightarrow>
            countField f [PASS, MISSING] (validations a) = 1) \<and>
         (countField f [PASS] (validations a) = 0 \<or> countField f [MISSING] (validations a) = 0)"
proof -
  from assms(1) obtain props where props: "ownProperties firstItem = Some props"
    and vs: "validations a = map (presenceCheck props) transactionFields @ amountCheck firstItem
           @ accountIdCheck firstItem @ dateCheck dp firstItem"
    by (rule array_validations)
  have six: "take 6 (validations a) = map (presenceCheck props) transactionFields"
    by (simp add: vs transactionFields_def)
  have one: "length (filter (\<lambda>g. g = f) transactionFields) = 1"
    using assms(2) by (rule count_transactionFields)
  have c0: "filter (\<lambda>c. field c = f) (take 6 (validations a)) =
           [case getProperty firstItem f of
              Some v \<Rightarrow> (check f PASS)\<lparr> val := Some v \<rparr>
            | None \<Rightarrow> (check f MISSING)\<lparr> reason := Some ''Field not found in response'' \<rparr>]"
    unfolding six filter_presence only_transactionField [OF assms(2)]
    by (simp add: presenceCheck_getProperty [OF props])
  have c1: "countField f [PASS, MISSING] (take 6 (validations a)) = 1"
    by (simp add: six countField_presence one)
  have c2: "countField f [PASS, MISSING] (validations a) =
           1 + countField f [PASS] (secondaryChecks dp firstItem)"
    by (simp add: vs secondaryChecks_def countField_append countField_presence one
          countField_amountCheck countField_accountIdCheck countField_dateCheck
          split: option.splits)
  have c3: "countField f [PASS] (secondaryChecks dp firstItem) \<le> 1"
    by (simp add: secondaryChecks_def countField_append
          countField_amountCheck countField_accountIdCheck countField_dateCheck
          split: option.splits)
  have c4: "f \<in> set [''id'', ''type'', ''description''] \<longrightarrow>
            countField f [PASS] (secondaryChecks dp firstItem) = 0"
    by (auto simp: secondaryChecks_def countField_append
          countField_amountCheck countField_accountIdCheck countField_dateCheck
          split: option.splits)
  have c5: "countField f [PASS] (validations a) = 0 \<or> countField f [MISSING] (validations a) = 0"
  proof (cases "f \<in> set (map fst props)")
    case True
    then show ?thesis
      by (simp add: vs countField_append countField_presence
          countField_amountCheck countField_accountIdCheck countField_dateCheck
          split: option.splits)
  next
    case False
    then have "getProperty firstItem f = None"
      using getProperty_present [OF props, of f] by (cases "getProperty firstItem f") auto
    then show ?thesis using False
      by (auto simp: vs countField_append countField_presence
          countField_amountCheck countField_accountIdCheck countField_dateCheck
          split: option.splits)
  qed
  from c0 c1 c2 c3 c4 c5 show ?thesis by simp
qed

lemma sample_analysis:
  "analyzeJsonResponse noDates (JArr [sampleTransaction]) ep
     = Inr (projr (analyzeJsonResponse noDates (JArr [sampleTransaction]) ep))"
  by (simp add: analyzeJsonResponse_def sampleTransaction_def Let_def)

theorem schema_field_presence_checks_witness:
  "filter (\<lambda>c. field c = ''amount'') (take 6 (validations (projr
      (analyzeJsonResponse noDates (JArr [sampleTransaction]) ''/services/bank/accounts/13344/transactions''))))
     = [(check ''amount'' PASS)\<lparr> val := Some (JStr ''35.68'') \<rparr>] \<and>
   filter (\<lambda>c. field c = ''description'') (take 6 (validations (projr
      (analyzeJsonResponse noDates (JArr [sampleTransaction]) ''/services/bank/accounts/13344/transactions''))))
     = [(check ''description'' MISSING)\<lparr> reason := Some ''Field not found in response'' \<rparr>] \<and>
   countField ''amount'' [PASS, MISSING] (validations (projr
      (analyzeJsonResponse noDates (JArr [sampleTransaction]) ''/services/bank/accounts/13344/transactions'')))
     = 1 + countField ''amount'' [PASS] (secondaryChecks noDates sampleTransaction) \<and>
   countField ''description'' [PASS, MISSING] (validations (projr
      (analyzeJsonResponse noDates (JArr [sampleTransaction]) ''/services/bank/accounts/13344/transactions'')))
     = 1"
proof -
  have f: "''amount'' \<in> set transactionFields" and g: "''description'' \<in> set transactionFields"
    by (simp_all add: transactionFields_def)
  have p: "getProperty sampleTransaction ''amount'' = Some (JStr ''35.68'')"
    and q: "getProperty sampleTransaction ''description'' = None"
    by (simp_all add: getProperty_def sampleTransaction_def)
  show ?thesis
    using schema_field_presence_checks [OF sample_analysis [of "''/services/bank/accounts/13344/transactions''"] f]
      schema_field_presence_checks [OF sample_analysis [of "''/services/bank/accounts/13344/transactions''"] g]
      p q
    by simp
qed

lemma parseFloat_3568: "parseFloat ''35.68'' = Fin (3568 / 100)"
  by (simp add: parseFloat_def splitSign_def isWhite_def isDigit_def digitsVal_def hexVal_def
        pow10_def exponentPart_def overflows_def Let_def)

lemma parseFloat_abc: "parseFloat ''abc'' = NaN"
  by (simp add: parseFloat_def splitSign_def isWhite_def isDigit_def Let_def)

lemma sample_amount: "getProperty sampleTransaction ''amount'' = Some (JStr ''35.68'')"
  by (simp add: getProperty_def sampleTransaction_def)

text \<open>
  Claim C4 as stated fails for a field with a secondary check: an amount that parses has
  two PASS checks in the verdict.
\<close>

theorem amount_has_two_pass_checks_counterexample:
  "''amount'' \<in> set transactionFields \<and>
   map_sum id (\<lambda>a. countField ''amount'' [PASS, MISSING] (validations a))
     (analyzeJsonResponse noDates (JArr [sampleTransaction]) ''/services/bank/accounts/13344/transactions'')
     = Inr 2"
proof -
  let ?a = "projr (analyzeJsonResponse noDates (JArr [sampleTransaction])
              ''/services/bank/accounts/13344/transactions'')"
  obtain props where props: "ownProperties sampleTransaction = Some props"
    and vs: "validations ?a = map (presenceCheck props) transactionFields
           @ amountCheck sampleTransaction @ accountIdCheck sampleTransaction
           @ dateCheck noDates sampleTransaction"
    using sample_analysis [of "''/services/bank/accounts/13344/transactions''"] by (rule array_validations)
  have f: "''amount'' \<in> set transactionFields" by (simp add: transactionFields_def)
  have "''amount'' \<in> set (map fst props)"
    using getProperty_present [OF props sample_amount] .
  then have "countField ''amount'' [PASS, MISSING] (validations ?a) = 2"
    by (simp add: vs countField_append countField_presence count_transactionFields [OF f]
          countField_amountCheck countField_accountIdCheck countField_dateCheck
          sample_amount parseFloat_3568 split: option.splits)
  then have "map_sum id (\<lambda>a. countField ''amount'' [PASS, MISSING] (validations a)) (Inr ?a) = Inr 2"
    by simp
  then show ?thesis
    by (subst sample_analysis [of "''/services/bank/accounts/13344/transactions''"]) (simp add: f)
qed

text \<open>
  Claim C9, as the code has it. When the first element of an array has an amount, the
  secondary check of the amount is part of the verdict; for the amount "35.68" it is one
  PASS check with the parsed value 35.68, and for "abc" it is one FAIL check with the
  reason \<^verbatim>\<open>not_a_number\<close>.
\<close>

theorem amount_check_examples:
  assumes "analyzeJsonResponse dp (JArr (firstItem # rest)) ep = Inr a"
  shows "(getProperty firstItem ''amount'' = Some (JStr ''35.68'') \<longrightarrow>
            amountCheck firstItem =
              [(check ''amount'' PASS)\<lparr> val := Some (JNum (Fin (3568 / 100))),
                  validation := Some ''valid_number'' \<rparr>]) \<and>
         (getProperty firstItem ''amount'' = Some (JStr ''abc'') \<longrightarrow>
            amountCheck firstItem =
              [(check ''amount'' FAIL)\<lparr> val := Some (JStr ''abc''),
                  reason := Some ''not_a_number'' \<rparr>]) \<and>
         set (amountCheck firstItem) \<subseteq> set (validations a)"
proof -
  from assms obtain props where
    vs: "validations a = map (presenceCheck props) transactionFields @ amountCheck firstItem
           @ accountIdCheck firstItem @ dateCheck dp firstItem"
    by (rule array_validations)
  have "set (amountCheck firstItem) \<subseteq> set (validations a)"
    by (auto simp: vs)
  then show ?thesis
    by (simp add: amountCheck_def parseFloat_3568 parseFloat_abc)
qed

lemma bad_analysis:
  "analyzeJsonResponse noDates (JArr [badAmountTransaction]) ep
     = Inr (projr (analyzeJsonResponse noDates (JArr [badAmountTransaction]) ep))"
  by (simp add: analyzeJsonResponse_def badAmountTransaction_def Let_def)

lemma bad_amount: "getProperty badAmountTransaction ''amount'' = Some (JStr ''abc'')"
  by (simp add: getProperty_def badAmountTransaction_def)

theorem amount_check_examples_witness:
  "getProperty sampleTransaction ''amount'' = Some (JStr ''35.68'') \<and>
   amountCheck sampleTransaction =
     [(check ''amount'' PASS)\<lparr> val := Some (JNum (Fin (3568 / 100))),
         validation := Some ''valid_number'' \<rparr>] \<and>
   (check ''amount'' PASS)\<lparr> val := Some (JNum (Fin (3568 / 100))), validation := Some ''valid_number'' \<rparr>
     \<in> set (validations (projr (analyzeJsonResponse noDates (JArr [sampleTransaction])
            ''/services/bank/accounts/13344/transactions''))) \<and>
   getProperty badAmountTransaction ''amount'' = Some (JStr ''abc'') \<and>
   amountCheck badAmountTransaction =
     [(check ''amount'' FAIL)\<lparr> val := Some (JStr ''abc''), reason := Some ''not_a_number'' \<rparr>] \<and>
   (check ''amount'' FAIL)\<lparr> val := Some (JStr ''abc''), reason := Some ''not_a_number'' \<rparr>
     \<in> set (validations (projr (analyzeJsonResponse noDates (JArr [badAmountTransaction])
            ''/services/bank/accounts/13344/transactions'')))"
proof -
  show ?thesis
    using amount_check_examples [OF sample_analysis [of "''/services/bank/accounts/13344/transactions''"]]
      amount_check_examples [OF bad_analysis [of "''/services/bank/accounts/13344/transactions''"]]
      sample_amount bad_amount
    by auto
qed

text \<open>
  Claim C9 as stated fails at "abc": the reason of the FAIL check is the text
  \<^verbatim>\<open>not_a_number\<close>, with underscores, not "not a number".
\<close>

theorem amount_reason_spelling_counterexample:
  "getProperty badAmountTransaction ''amount'' = Some (JStr ''abc'') \<and>
   map status (amountCheck badAmountTransaction) = [FAIL] \<and>
   map reason (amountCheck badAmountTransaction) = [Some ''not_a_number''] \<and>
   map reason (amountCheck badAmountTransaction) \<noteq> [Some ''not a number'']"
  by (simp add: amountCheck_def bad_amount parseFloat_abc check_def)

section \<open>The order and the short cut of the prober\<close>

lemma tryCaptured_trace:
  "snd (tryCaptured dp net n amount c) = filter issuable [(httpMethod c, endpoint c)]"
  by (simp add: tryCaptured_def issuable_def split: reply.splits option.splits sum.splits)

lemma tryCaptured_status:
  "tryCaptured dp net n amount c = (Some res, tr) \<Longrightarrow> r_status res = 200"
  by (auto simp: tryCaptured_def split: reply.splits option.splits sum.splits if_splits)

lemma filter_issuable_Cons:
  "filter issuable (rq # rqs) = filter issuable [rq] @ filter issuable rqs"
  by simp

lemma capturedLoop_trace:
  "prefix (snd (capturedLoop dp net n amount cs))
     (filter issuable (map (\<lambda>c. (httpMethod c, endpoint c)) cs)) \<and>
   (fst (capturedLoop dp net n amount cs) = None \<longrightarrow>
      snd (capturedLoop dp net n amount cs) =
        filter issuable (map (\<lambda>c. (httpMethod c, endpoint c)) cs))"
proof (induction cs arbitrary: n)
  case Nil
  show ?case by simp
next
  case (Cons c cs)
  let ?rq = "(httpMethod c, endpoint c)"
  obtain r tr where t: "tryCaptured dp net n amount c = (r, tr)" by (cases "tryCaptured dp net n amount c")
  have tr: "tr = filter issuable [?rq]"
    using tryCaptured_trace [of dp net n amount c] t by simp
  have all: "filter issuable (map (\<lambda>c. (httpMethod c, endpoint c)) (c # cs)) =
      tr @ filter issuable (map (\<lambda>c. (httpMethod c, endpoint c)) cs)"
    unfolding tr list.map by (rule filter_issuable_Cons)
  show ?case
  proof (cases r)
    case None
    obtain r' tr' where l: "capturedLoop dp net (n + length tr) amount cs = (r', tr')"
      by (cases "capturedLoop dp net (n + length tr) amount cs")
    from Cons.IH [of "n + length tr"] l
    have ih: "prefix tr' (filter issuable (map (\<lambda>c. (httpMethod c, endpoint c)) cs))"
      "r' = None \<longrightarrow> tr' = filter issuable (map (\<lambda>c. (httpMethod c, endpoint c)) cs)"
      by simp_all
    have "capturedLoop dp net n amount (c # cs) = (r', tr @ tr')"
      using t None l by simp
    then show ?thesis unfolding all using ih by simp
  next
    case (Some res)
    have "capturedLoop dp net n amount (c # cs) = (Some res, tr)"
      using t Some by simp
    then show ?thesis unfolding all by simp
  qed
qed

lemma capturedLoop_status:
  "capturedLoop dp net n amount cs = (Some res, tr) \<Longrightarrow> r_status res = 200"
proof (induction cs arbitrary: n tr)
  case Nil
  then show ?case by simp
next
  case (Cons c cs)
  obtain r tr0 where t: "tryCaptured dp net n amount c = (r, tr0)" by (cases "tryCaptured dp net n amount c")
  show ?case
  proof (cases r)
    case None
    with Cons.prems t obtain tr' where "capturedLoop dp net (n + length tr0) amount cs = (Some res, tr')"
      by (auto split: prod.splits)
    then show ?thesis by (rule Cons.IH)
  next
    case (Some res')
    with Cons.prems t have "res' = res" by simp
    with t Some show ?thesis using tryCaptured_status by blast
  qed
qed

lemma tryStatic_status:
  "tryStatic dp net n wh html ep = Some res \<Longrightarrow> r_status res = 200"
  by (auto simp: tryStatic_def split: reply.splits option.splits sum.splits if_splits)

lemma staticLoop_trace:
  "prefix (snd (staticLoop dp net n wh html eps)) (map (Pair ''GET'') eps) \<and>
   (fst (staticLoop dp net n wh html eps) = None \<longrightarrow>
      snd (staticLoop dp net n wh html eps) = map (Pair ''GET'') eps)"
  by (induction eps arbitrary: n) (simp_all add: case_prod_beta split: option.splits)

lemma staticLoop_status:
  "staticLoop dp net n wh html eps = (Some res, tr) \<Longrightarrow> r_status res = 200"
  by (induction eps arbitrary: n tr) (auto split: option.splits prod.splits dest: tryStatic_status)

lemma capturedCandidates_store:
  "capturedCandidates accountId (storeCapturedEndpoint t1 t2 ep m d s) =
     capturedCandidates accountId s @
       (if isTransactionEndpoint accountId \<lparr> endpoint = ep, httpMethod = m, data = d, timestamp = t1 \<rparr>
        then [(m, ep)] else [])"
  by (simp add: capturedCandidates_def)

text \<open>
  Claim C3, as the code has it. The requests that findTransactionsByAmount issues are an
  initial part of its candidate list (the GET and POST candidates of it), and the whole
  of it when no candidate is accepted: the captured calls that match the topic keywords,
  in the order they were captured, followed by the static candidates. A newly captured
  call takes its place after the calls captured before it.
\<close>

theorem candidates_tried_in_capture_order:
  "prefix (fst (snd (findTransactionsByAmount dp net accountId amount s)))
     (filter issuable (candidateList accountId s)) \<and>
   (r_status (fst (findTransactionsByAmount dp net accountId amount s)) = 404 \<longrightarrow>
      fst (snd (findTransactionsByAmount dp net accountId amount s)) =
        filter issuable (candidateList accountId s)) \<and>
   capturedCandidates accountId (storeCapturedEndpoint t1 t2 ep m d s) =
     capturedCandidates accountId s @
       (if isTransactionEndpoint accountId \<lparr> endpoint = ep, httpMethod = m, data = d, timestamp = t1 \<rparr>
        then [(m, ep)] else [])"
proof -
  let ?cs = "filter (isTransactionEndpoint accountId) (capturedEndpoints s)"
  let ?all = "filter issuable (map (\<lambda>c. (httpMethod c, endpoint c)) ?cs)"
  let ?fb = "map (Pair ''GET'') (fallbackEndpoints accountId)"
  have cand: "filter issuable (candidateList accountId s) = ?all @ ?fb"
    by (simp add: candidateList_def capturedCandidates_def issuable_def)
  obtain r tr where cl: "capturedLoop dp net 0 amount ?cs = (r, tr)"
    by (cases "capturedLoop dp net 0 amount ?cs")
  have ctr: "prefix tr ?all" "r = None \<longrightarrow> tr = ?all"
    using capturedLoop_trace [of dp net 0 amount ?cs] cl by simp_all
  have main: "prefix (fst (snd (findTransactionsByAmount dp net accountId amount s))) (?all @ ?fb) \<and>
   (r_status (fst (findTransactionsByAmount dp net accountId amount s)) = 404 \<longrightarrow>
      fst (snd (findTransactionsByAmount dp net accountId amount s)) = ?all @ ?fb)"
  proof (cases r)
    case (Some res)
    have "r_status res = 200" using cl Some capturedLoop_status by blast
    then show ?thesis using cl Some ctr
      by (simp add: findTransactionsByAmount_def Let_def prefix_prefix)
  next
    case None
    obtain r' tr' where sl: "staticLoop dp net (length tr) True (transactionsHtml accountId amount)
        (fallbackEndpoints accountId) = (r', tr')"
      by (cases "staticLoop dp net (length tr) True (transactionsHtml accountId amount)
        (fallbackEndpoints accountId)")
    have str: "prefix tr' ?fb" "r' = None \<longrightarrow> tr' = ?fb"
      using staticLoop_trace [of dp net "length tr" True "transactionsHtml accountId amount"
          "fallbackEndpoints accountId"] sl by simp_all
    show ?thesis
    proof (cases r')
      case None
      then show ?thesis using cl \<open>r = None\<close> sl ctr str
        by (simp add: findTransactionsByAmount_def Let_def)
    next
      case (Some res)
      have "r_status res = 200" using sl Some staticLoop_status by blast
      then show ?thesis using cl \<open>r = None\<close> sl ctr str Some
        by (simp add: findTransactionsByAmount_def Let_def)
    qed
  qed
  show ?thesis using main cand capturedCandidates_store by simp
qed

lemma twoCaptured_log:
  "capturedEndpoints twoCaptured =
     [\<lparr> endpoint = ''/transaction/old'', httpMethod = ''GET'', data = JNull, timestamp = 1 \<rparr>,
      \<lparr> endpoint = ''/transaction/new'', httpMethod = ''GET'', data = JNull, timestamp = 2 \<rparr>]"
  by (simp add: twoCaptured_def constructor_def)

lemma twoCaptured_transactionEndpoints:
  "filter (isTransactionEndpoint accountId) (capturedEndpoints twoCaptured) =
     [\<lparr> endpoint = ''/transaction/old'', httpMethod = ''GET'', data = JNull, timestamp = 1 \<rparr>,
      \<lparr> endpoint = ''/transaction/new'', httpMethod = ''GET'', data = JNull, timestamp = 2 \<rparr>]"
  by (simp add: twoCaptured_log isTransactionEndpoint_def)

lemma dead_static:
  "staticLoop dp deadNetwork n wh html eps = (None, map (Pair ''GET'') eps)"
  by (induction eps arbitrary: n) (simp_all add: tryStatic_def deadNetwork_def)

lemma answers_static:
  "u0 \<notin> set eps \<Longrightarrow> staticLoop dp (answers u0 st body) n wh html eps = (None, map (Pair ''GET'') eps)"
  by (induction eps arbitrary: n) (auto simp: tryStatic_def answers_def)

theorem candidates_tried_in_capture_order_witness:
  "r_status (fst (findTransactionsByAmount noDates deadNetwork ''13344'' ''35.68'' twoCaptured)) = 404 \<and>
   fst (snd (findTransactionsByAmount noDates deadNetwork ''13344'' ''35.68'' twoCaptured)) =
     filter issuable (candidateList ''13344'' twoCaptured) \<and>
   capturedCandidates ''13344'' twoCaptured =
     [(''GET'', ''/transaction/old''), (''GET'', ''/transaction/new'')]"
proof -
  have "r_status (fst (findTransactionsByAmount noDates deadNetwork ''13344'' ''35.68'' twoCaptured)) = 404"
    by (simp add: findTransactionsByAmount_def twoCaptured_transactionEndpoints
          tryCaptured_def dead_static notFound_def Let_def deadNetwork_def)
  moreover have "capturedCandidates ''13344'' twoCaptured =
     [(''GET'', ''/transaction/old''), (''GET'', ''/transaction/new'')]"
    by (simp add: capturedCandidates_def twoCaptured_transactionEndpoints)
  ultimately show ?thesis
    using candidates_tried_in_capture_order [of noDates deadNetwork "''13344''" "''35.68''" twoCaptured]
    by simp
qed

text \<open>
  Claim C3 as stated fails: with two captured calls the older one is requested first,
  while most-recent-first puts the newer one first.
\<close>

theorem oldest_captured_tried_first_counterexample:
  "map timestamp (capturedEndpoints twoCaptured) = [1, 2] \<and>
   fst (snd (findTransactionsByAmount noDates deadNetwork ''13344'' ''35.68'' twoCaptured)) =
     [(''GET'', ''/transaction/old''), (''GET'', ''/transaction/new'')]
       @ map (Pair ''GET'') (fallbackEndpoints ''13344'') \<and>
   specCandidateList ''13344'' twoCaptured =
     [(''GET'', ''/transaction/new''), (''GET'', ''/transaction/old'')]
       @ map (Pair ''GET'') (fallbackEndpoints ''13344'') \<and>
   fst (snd (findTransactionsByAmount noDates deadNetwork ''13344'' ''35.68'' twoCaptured)) \<noteq>
     specCandidateList ''13344'' twoCaptured"
proof -
  have a: "fst (snd (findTransactionsByAmount noDates deadNetwork ''13344'' ''35.68'' twoCaptured)) =
     [(''GET'', ''/transaction/old''), (''GET'', ''/transaction/new'')]
       @ map (Pair ''GET'') (fallbackEndpoints ''13344'')"
    by (simp add: findTransactionsByAmount_def twoCaptured_transactionEndpoints
          tryCaptured_def dead_static Let_def deadNetwork_def)
  have b: "specCandidateList ''13344'' twoCaptured =
     [(''GET'', ''/transaction/new''), (''GET'', ''/transaction/old'')]
       @ map (Pair ''GET'') (fallbackEndpoints ''13344'')"
    by (simp add: specCandidateList_def twoCaptured_transactionEndpoints)
  show ?thesis unfolding a b by (simp add: twoCaptured_log)
qed

lemma capturedLoop_append:
  "capturedLoop dp net n amount (xs @ ys) =
     (case capturedLoop dp net n amount xs of
        (Some res, tr) \<Rightarrow> (Some res, tr)
      | (None, tr) \<Rightarrow>
          (case capturedLoop dp net (n + length tr) amount ys of (res, tr') \<Rightarrow> (res, tr @ tr')))"
proof (induction xs arbitrary: n)
  case Nil
  show ?case by simp
next
  case (Cons c cs)
  obtain r tr where t: "tryCaptured dp net n amount c = (r, tr)" by (cases "tryCaptured dp net n amount c")
  show ?case
  proof (cases r)
    case None
    show ?thesis
      using t None Cons.IH [of "n + length tr"]
      by (simp add: add.assoc split: prod.splits option.splits)
  next
    case (Some res)
    then show ?thesis using t by simp
  qed
qed

text \<open>
  Claim C7, as the code has it. When every earlier captured candidate has failed and a
  captured candidate answers with status 200 and a body that parses, and the analysis and
  the amount filter of that body return without throwing, findTransactionsByAmount
  returns that candidate's verdict, and its request is the last one issued: no later
  captured candidate and no static endpoint is requested. The comparison of amounts in
  the filter is the host's, so this holds for the arithmetic of doubles as for any other.
\<close>

theorem first_accepted_captured_wins:
  assumes "filter (isTransactionEndpoint accountId) (capturedEndpoints s) = pre @ c # post"
    and "capturedLoop dp net 0 amount pre = (None, tr)"
    and "httpMethod c = ''GET'' \<or> httpMethod c = ''POST''"
    and "net (length tr) (httpMethod c) (endpoint c) = Reply r"
    and "httpStatus r = 200"
    and "jsonBody r = Some jsonData"
    and "analyzeJsonResponse dp jsonData (endpoint c) = Inr a"
    and "filteredData dp amount jsonData = Inr fd"
  shows "findTransactionsByAmount dp net accountId amount s =
     (\<lparr> r_status = 200, r_data = fd, r_headers = Some (headers r), r_endpoint = endpoint c,
        r_analysis = Analysed a, originalData = Some jsonData \<rparr>,
      tr @ [(httpMethod c, endpoint c)], ensureInit s)"
proof -
  let ?res = "\<lparr> r_status = 200, r_data = fd, r_headers = Some (headers r), r_endpoint = endpoint c,
        r_analysis = Analysed a, originalData = Some jsonData \<rparr>"
  have one: "tryCaptured dp net (length tr) amount c = (Some ?res, [(httpMethod c, endpoint c)])"
    using assms(3-8) by (auto simp: tryCaptured_def)
  have "capturedLoop dp net 0 amount (pre @ c # post) = (Some ?res, tr @ [(httpMethod c, endpoint c)])"
    by (simp add: capturedLoop_append assms(2) one)
  then show ?thesis
    using assms(1) by (simp add: findTransactionsByAmount_def Let_def)
qed

lemma sample_filteredData:
  "filteredData noDates ''35.68'' (JArr [sampleTransaction]) = Inr (JArr [sampleTransaction])"
  by (simp add: filteredData_def amountMatches_def sample_amount parseFloat_3568 matchLoggable_def
        noDates_def nearExact_def)
     (simp add: sampleTransaction_def getProperty_def)

lemma old_not_fallback: "''/transaction/old'' \<notin> set (fallbackEndpoints ''13344'')"
  by (simp add: fallbackEndpoints_def)

lemma null_item_analysis: "analyzeJsonResponse dp (JArr [JNull]) ep = Inl TypeError"
  by (simp add: analyzeJsonResponse_def)

theorem first_accepted_captured_wins_witness:
  "findTransactionsByAmount noDates (answers ''/transaction/new'' 200 (JArr [sampleTransaction]))
      ''13344'' ''35.68'' twoCaptured =
     (\<lparr> r_status = 200, r_data = JArr [sampleTransaction], r_headers = Some [],
        r_endpoint = ''/transaction/new'',
        r_analysis = Analysed (projr (analyzeJsonResponse noDates (JArr [sampleTransaction])
                        ''/transaction/new'')),
        originalData = Some (JArr [sampleTransaction]) \<rparr>,
      [(''GET'', ''/transaction/old''), (''GET'', ''/transaction/new'')],
      ensureInit twoCaptured)"
proof -
  let ?net = "answers ''/transaction/new'' 200 (JArr [sampleTransaction])"
  let ?old = "\<lparr> endpoint = ''/transaction/old'', httpMethod = ''GET'', data = JNull, timestamp = 1 \<rparr>"
  let ?new = "\<lparr> endpoint = ''/transaction/new'', httpMethod = ''GET'', data = JNull, timestamp = 2 \<rparr>"
  let ?r = "\<lparr> httpStatus = 200, jsonBody = Some (JArr [sampleTransaction]), textBody = Some [],
        headers = [] \<rparr>"
  have h1: "filter (isTransactionEndpoint ''13344'') (capturedEndpoints twoCaptured) = [?old] @ ?new # []"
    by (simp add: twoCaptured_transactionEndpoints)
  have h2: "capturedLoop noDates ?net 0 ''35.68'' [?old] = (None, [(''GET'', ''/transaction/old'')])"
    by (simp add: tryCaptured_def answers_def)
  have h3: "httpMethod ?new = ''GET'' \<or> httpMethod ?new = ''POST''" by simp
  have h4: "?net (length [(''GET'', ''/transaction/old'')]) (httpMethod ?new) (endpoint ?new) = Reply ?r"
    by (simp add: answers_def)
  have h5: "httpStatus ?r = 200" by simp
  have h6: "jsonBody ?r = Some (JArr [sampleTransaction])" by simp
  have h7: "analyzeJsonResponse noDates (JArr [sampleTransaction]) (endpoint ?new) =
      Inr (projr (analyzeJsonResponse noDates (JArr [sampleTransaction]) ''/transaction/new''))"
    unfolding captured.simps by (rule sample_analysis)
  show ?thesis
    using first_accepted_captured_wins [OF h1 h2 h3 h4 h5 h6 h7 sample_filteredData]
    by simp
qed

text \<open>
  Claim C7 as stated fails: a captured candidate that answers 201 with a JSON body, or
  200 with the JSON body [null], is passed over, and every later candidate is requested.
\<close>

theorem captured_201_or_null_item_counterexample:
  "fst (snd (findTransactionsByAmount noDates (answers ''/transaction/old'' 201 (JArr [sampleTransaction]))
      ''13344'' ''35.68'' twoCaptured)) =
     [(''GET'', ''/transaction/old''), (''GET'', ''/transaction/new'')]
       @ map (Pair ''GET'') (fallbackEndpoints ''13344'') \<and>
   r_status (fst (findTransactionsByAmount noDates (answers ''/transaction/old'' 201 (JArr [sampleTransaction]))
      ''13344'' ''35.68'' twoCaptured)) = 404 \<and>
   fst (snd (findTransactionsByAmount noDates (answers ''/transaction/old'' 200 (JArr [JNull]))
      ''13344'' ''35.68'' twoCaptured)) =
     [(''GET'', ''/transaction/old''), (''GET'', ''/transaction/new'')]
       @ map (Pair ''GET'') (fallbackEndpoints ''13344'') \<and>
   r_status (fst (findTransactionsByAmount noDates (answers ''/transaction/old'' 200 (JArr [JNull]))
      ''13344'' ''35.68'' twoCaptured)) = 404"
proof -
  have a: "capturedLoop noDates (answers ''/transaction/old'' 201 (JArr [sampleTransaction])) 0 ''35.68''
      (filter (isTransactionEndpoint ''13344'') (capturedEndpoints twoCaptured)) =
      (None, [(''GET'', ''/transaction/old''), (''GET'', ''/transaction/new'')])"
    by (simp add: twoCaptured_transactionEndpoints tryCaptured_def answers_def)
  have b: "capturedLoop noDates (answers ''/transaction/old'' 200 (JArr [JNull])) 0 ''35.68''
      (filter (isTransactionEndpoint ''13344'') (capturedEndpoints twoCaptured)) =
      (None, [(''GET'', ''/transaction/old''), (''GET'', ''/transaction/new'')])"
    by (simp add: twoCaptured_transactionEndpoints tryCaptured_def answers_def null_item_analysis)
  show ?thesis
    by (simp add: findTransactionsByAmount_def Let_def a b answers_static [OF old_not_fallback]
          notFound_def)
qed

section \<open>The attempts of registerUser\<close>

lemma attemptBody_before_last:
  assumes "attempt < maxAttempts"
  shows "attemptBody e (Some p) maxAttempts attempt ud =
     (if hasUsernameExistsError p
      then NextAttempt (ud\<lparr> username := generateSequentialUsername e attempt \<rparr>)
      else if hasPasswordError p then NextAttempt ud
      else if verifyRegistrationSuccess p then ReturnTrue
      else NextAttempt (ud\<lparr> username := generateSequentialUsername e attempt \<rparr>))"
  using assms by (simp add: attemptBody_def Let_def)

lemma attemptBody_last:
  "attemptBody e (Some p) maxAttempts maxAttempts ud =
     (if verifyRegistrationSuccess p then ReturnTrue else NextAttempt ud)"
  by (simp add: attemptBody_def Let_def)



lemma registerLoop_step:
  "attempt \<le> maxAttempts \<Longrightarrow>
   registerLoop ent br maxAttempts attempt ud =
     (case attemptBody (ent attempt) (br attempt ud) maxAttempts attempt ud of
        ReturnTrue \<Rightarrow> (True, ud, [username ud])
      | NextAttempt ud' \<Rightarrow>
          (case registerLoop ent br maxAttempts (Suc attempt) ud' of
             (res, final, names) \<Rightarrow> (res, final, username ud # names)))"
  by (subst registerLoop.simps) simp

lemma registerLoop_done:
  "maxAttempts < attempt \<Longrightarrow> registerLoop ent br maxAttempts attempt ud = (False, ud, [])"
  by (subst registerLoop.simps) simp

lemma registerLoop_last:
  "br maxAttempts ud = Some p \<Longrightarrow>
   registerLoop ent br maxAttempts maxAttempts ud = (verifyRegistrationSuccess p, ud, [username ud])"
  by (simp add: registerLoop_step attemptBody_last registerLoop_done)

text \<open>
  Claim C1, as the code has it. For every attempt of registerUser that reaches a page to
  inspect, the outcome is decided by the conflict indicator, then the password-error
  indicator, then the success indicator, the first match deciding, as long as attempts
  remain: a conflict retries with a username generated from the attempt number, a
  password error retries with the data unchanged, a success returns true, and none of
  them retries with a generated username. On the last attempt neither a conflict nor a
  password error decides: the run ends with what the success check says, so a conflict
  with no attempts remaining ends it with false unless a success indicator is present
  too, and then with true.
\<close>

theorem registration_priority_order:
  assumes "br attempt ud = Some p" and "attempt \<le> maxAttempts"
  shows "(attempt < maxAttempts \<longrightarrow>
           registerLoop ent br maxAttempts attempt ud =
             (let renamed = ud\<lparr> username := generateSequentialUsername (ent attempt) attempt \<rparr>;
                  retry = (\<lambda>ud'. case registerLoop ent br maxAttempts (Suc attempt) ud' of
                                   (res, final, names) \<Rightarrow> (res, final, username ud # names))
              in if hasUsernameExistsError p then retry renamed
                 else if hasPasswordError p then retry ud
                 else if verifyRegistrationSuccess p then (True, ud, [username ud])
                 else retry renamed)) \<and>
         (attempt = maxAttempts \<longrightarrow>
           registerLoop ent br maxAttempts attempt ud =
             (verifyRegistrationSuccess p, ud, [username ud]))"
proof (intro conjI impI)
  assume lt: "attempt < maxAttempts"
  show "registerLoop ent br maxAttempts attempt ud =
             (let renamed = ud\<lparr> username := generateSequentialUsername (ent attempt) attempt \<rparr>;
                  retry = (\<lambda>ud'. case registerLoop ent br maxAttempts (Suc attempt) ud' of
                                   (res, final, names) \<Rightarrow> (res, final, username ud # names))
              in if hasUsernameExistsError p then retry renamed
                 else if hasPasswordError p then retry ud
                 else if verifyRegistrationSuccess p then (True, ud, [username ud])
                 else retry renamed)"
    by (simp add: registerLoop_step [OF assms(2)] assms(1) attemptBody_before_last [OF lt] Let_def)
next
  assume e: "attempt = maxAttempts"
  show "registerLoop ent br maxAttempts attempt ud = (verifyRegistrationSuccess p, ud, [username ud])"
    using assms(1) unfolding e by (rule registerLoop_last)
qed

lemma renaming_run:
  assumes "\<And>k ud'. attempt \<le> k \<Longrightarrow> k < maxAttempts \<Longrightarrow>
             attemptBody (ent k) (br k ud') maxAttempts k ud' =
               NextAttempt (ud'\<lparr> username := generateSequentialUsername (ent k) k \<rparr>)"
    and "attempt \<le> maxAttempts"
  shows "registerLoop ent br maxAttempts attempt ud =
     (let lastData = (if attempt = maxAttempts then ud else
             ud\<lparr> username := generateSequentialUsername (ent (maxAttempts - 1)) (maxAttempts - 1) \<rparr>);
          names = username ud # retryNames ent attempt maxAttempts
      in case attemptBody (ent maxAttempts) (br maxAttempts lastData) maxAttempts maxAttempts lastData of
           ReturnTrue \<Rightarrow> (True, lastData, names)
         | NextAttempt ud' \<Rightarrow> (False, ud', names))"
  using assms
proof (induction "maxAttempts - attempt" arbitrary: attempt ud)
  case 0
  then have eq: "attempt = maxAttempts" by simp
  show ?case
    by (simp add: eq registerLoop_step registerLoop_done retryNames_def Let_def split: step.splits)
next
  case (Suc d)
  then have lt: "attempt < maxAttempts" by simp
  let ?ud = "ud\<lparr> username := generateSequentialUsername (ent attempt) attempt \<rparr>"
  have body: "attemptBody (ent attempt) (br attempt ud) maxAttempts attempt ud = NextAttempt ?ud"
    using Suc.prems(1) [of attempt ud] lt by simp
  have ih: "registerLoop ent br maxAttempts (Suc attempt) ?ud =
     (let lastData = (if Suc attempt = maxAttempts then ?ud else
             ?ud\<lparr> username := generateSequentialUsername (ent (maxAttempts - 1)) (maxAttempts - 1) \<rparr>);
          names = username ?ud # retryNames ent (Suc attempt) maxAttempts
      in case attemptBody (ent maxAttempts) (br maxAttempts lastData) maxAttempts maxAttempts lastData of
           ReturnTrue \<Rightarrow> (True, lastData, names)
         | NextAttempt ud' \<Rightarrow> (False, ud', names))"
  proof (rule Suc.hyps(1))
    show "d = maxAttempts - Suc attempt" using Suc.hyps(2) by simp
    show "\<And>k ud'. Suc attempt \<le> k \<Longrightarrow> k < maxAttempts \<Longrightarrow>
             attemptBody (ent k) (br k ud') maxAttempts k ud' =
               NextAttempt (ud'\<lparr> username := generateSequentialUsername (ent k) k \<rparr>)"
      using Suc.prems(1) by simp
    show "Suc attempt \<le> maxAttempts" using lt by simp
  qed
  have names: "retryNames ent attempt maxAttempts =
      generateSequentialUsername (ent attempt) attempt # retryNames ent (Suc attempt) maxAttempts"
    using lt by (simp add: retryNames_def upt_conv_Cons)
  have lastd: "(if Suc attempt = maxAttempts then ?ud else
             ?ud\<lparr> username := generateSequentialUsername (ent (maxAttempts - 1)) (maxAttempts - 1) \<rparr>)
        = ud\<lparr> username := generateSequentialUsername (ent (maxAttempts - 1)) (maxAttempts - 1) \<rparr>"
    by auto
  show ?case
    using lt
    by (simp add: registerLoop_step [OF Suc.prems(2)] body ih names lastd Let_def split: step.splits)
qed


section \<open>The generated usernames\<close>

lemma showNat_digit: "n < 10 \<Longrightarrow> showNat n = [digitChar n]"
  by (subst showNat.simps) simp

lemma length_hexN: "length (hexN k v) = k"
  by (induction k arbitrary: v) simp_all

lemma length_sliceLast: "length (sliceLast k s) \<le> k"
  by (simp add: sliceLast_def)

lemma of_char_digitChar: "d < 10 \<Longrightarrow> (of_char (digitChar d) :: nat) = 48 + d"
  by (simp add: digitChar_def)

lemma digitChar_inj: "a < 10 \<Longrightarrow> b < 10 \<Longrightarrow> digitChar a = digitChar b \<Longrightarrow> a = b"
proof -
  assume a: "a < 10" and b: "b < 10" and e: "digitChar a = digitChar b"
  have "(of_char (digitChar a) :: nat) = of_char (digitChar b)" using e by simp
  then show "a = b" using a b by (simp add: of_char_digitChar)
qed

lemma sequential_name:
  assumes "0 < a" and "a < 10"
  shows "generateSequentialUsername e a =
     ''usr'' @ hexN 12 (fst e) @ sliceLast 8 (showNat (snd e)) @ [CHR ''a'', digitChar a]"
proof -
  have "length (''usr'' @ hexN 12 (fst e) @ sliceLast 8 (showNat (snd e)) @ [CHR ''a'', digitChar a]) \<le> 32"
    using length_sliceLast [of 8 "showNat (snd e)"] by (simp add: length_hexN)
  then have "take 32 (''usr'' @ hexN 12 (fst e) @ sliceLast 8 (showNat (snd e)) @ [CHR ''a'', digitChar a])
      = ''usr'' @ hexN 12 (fst e) @ sliceLast 8 (showNat (snd e)) @ [CHR ''a'', digitChar a]"
    by (rule take_all)
  then show ?thesis
    using assms by (simp add: generateSequentialUsername_def Let_def showNat_digit)
qed

lemma last_sequential:
  "0 < a \<Longrightarrow> a < 10 \<Longrightarrow> last (generateSequentialUsername e a) = digitChar a"
  by (simp add: sequential_name)

lemma retryNames_distinct:
  assumes "0 < a" and "b \<le> 10"
  shows "distinct (retryNames ent a b)"
proof -
  have "inj_on (\<lambda>k. generateSequentialUsername (ent k) k) (set [a..<b])"
  proof (rule inj_onI)
    fix x y
    assume x: "x \<in> set [a..<b]" and y: "y \<in> set [a..<b]"
      and e: "generateSequentialUsername (ent x) x = generateSequentialUsername (ent y) y"
    have bx: "0 < x" "x < 10" and bz: "0 < y" "y < 10" using x y assms by auto
    have "last (generateSequentialUsername (ent x) x) = last (generateSequentialUsername (ent y) y)"
      using e by simp
    then have "digitChar x = digitChar y"
      using bx bz by (simp add: last_sequential)
    then show "x = y" using bx bz by (auto dest: digitChar_inj)
  qed
  then show ?thesis by (simp add: retryNames_def distinct_map)
qed

lemma of_char_hexDigit: "d < 16 \<Longrightarrow> (of_char (hexDigit d) :: nat) = (if d < 10 then 48 + d else 87 + d)"
  by (simp add: hexDigit_def digitChar_def)

lemma hexDigit_not_s: "d < 16 \<Longrightarrow> hexDigit d \<noteq> CHR ''s''"
proof
  assume d: "d < 16" and e: "hexDigit d = CHR ''s''"
  have "(of_char (hexDigit d) :: nat) = of_char CHR ''s''" using e by simp
  then show False using d by (simp add: of_char_hexDigit split: if_splits)
qed

lemma hexN_not_s: "c \<in> set (hexN k v) \<Longrightarrow> c \<noteq> CHR ''s''"
proof (induction k arbitrary: v)
  case 0
  then show ?case by simp
next
  case (Suc k)
  have "hexDigit (v mod 16) \<noteq> CHR ''s''" by (rule hexDigit_not_s) simp
  then show ?case using Suc by auto
qed

lemma unique_second: "generateUniqueUsername hh now ! 1 \<noteq> CHR ''s''"
proof -
  have "hexN 12 hh \<noteq> []" using length_hexN [of 12 hh] by auto
  then obtain c cs where h: "hexN 12 hh = c # cs" by (cases "hexN 12 hh") auto
  then have "c \<in> set (hexN 12 hh)" by simp
  then have "c \<noteq> CHR ''s''" by (rule hexN_not_s)
  then show ?thesis by (simp add: generateUniqueUsername_def h)
qed

lemma sequential_second: "generateSequentialUsername e a ! 1 = CHR ''s''"
  by (simp add: generateSequentialUsername_def Let_def)

lemma unique_not_sequential: "generateUniqueUsername hh now \<noteq> generateSequentialUsername e a"
  using unique_second [of hh now] sequential_second [of e a] by auto

lemma unique_not_retry: "generateUniqueUsername hh now \<notin> set (retryNames ent a b)"
  by (auto simp: retryNames_def unique_not_sequential)

section \<open>Runs of registerUser\<close>

lemma conflictPage_facts:
  "hasUsernameExistsError conflictPage" "\<not> hasPasswordError conflictPage"
  "\<not> verifyRegistrationSuccess conflictPage"
  by (simp_all add: hasUsernameExistsError_def hasPasswordError_def verifyRegistrationSuccess_def
        conflictPage_def registerUrl_def toLowerCase_def)

lemma staleSuccessPage_facts:
  "hasUsernameExistsError staleSuccessPage" "verifyRegistrationSuccess staleSuccessPage"
  by (simp_all add: hasUsernameExistsError_def verifyRegistrationSuccess_def
        staleSuccessPage_def registerUrl_def toLowerCase_def)


lemma conflict_run:
  assumes "\<And>k ud'. 1 \<le> k \<Longrightarrow> k \<le> 10 \<Longrightarrow> \<exists>p. br k ud' = Some p \<and> hasUsernameExistsError p"
  shows "\<exists>p. br 10 (ud\<lparr> username := generateSequentialUsername (ent 9) 9 \<rparr>) = Some p \<and>
     registerUser ent br ud =
       (verifyRegistrationSuccess p, ud\<lparr> username := generateSequentialUsername (ent 9) 9 \<rparr>,
        username ud # retryNames ent 1 10)"
proof -
  let ?last = "ud\<lparr> username := generateSequentialUsername (ent 9) 9 \<rparr>"
  have step: "\<And>k ud'. 1 \<le> k \<Longrightarrow> k < 10 \<Longrightarrow>
      attemptBody (ent k) (br k ud') 10 k ud' =
        NextAttempt (ud'\<lparr> username := generateSequentialUsername (ent k) k \<rparr>)"
  proof -
    fix k :: nat and ud'
    assume k: "1 \<le> k" "k < 10"
    then obtain p where "br k ud' = Some p" "hasUsernameExistsError p"
      using assms [of k ud'] by auto
    then show "attemptBody (ent k) (br k ud') 10 k ud' =
        NextAttempt (ud'\<lparr> username := generateSequentialUsername (ent k) k \<rparr>)"
      using k by (simp add: attemptBody_before_last)
  qed
  obtain p where p: "br 10 ?last = Some p" using assms [of 10 ?last] by auto
  have "registerLoop ent br 10 1 ud =
      (case attemptBody (ent 10) (br 10 ?last) 10 10 ?last of
         ReturnTrue \<Rightarrow> (True, ?last, username ud # retryNames ent 1 10)
       | NextAttempt ud' \<Rightarrow> (False, ud', username ud # retryNames ent 1 10))"
    using renaming_run [of 1 10 ent br ud, OF step] by (simp add: Let_def del: One_nat_def)
  then have "registerUser ent br ud =
       (verifyRegistrationSuccess p, ?last, username ud # retryNames ent 1 10)"
    by (simp add: registerUser_def p attemptBody_last)
  then show ?thesis using p by blast
qed


lemma length_retryNames: "length (retryNames ent a b) = b - a"
  by (simp add: retryNames_def)

text \<open>
  Claim C5, as the code has it. If every one of the ten attempts reaches a page that
  shows the username conflict and the success check of the tenth attempt fails, then
  registerUser returns false after exactly ten attempts. The nine retry usernames are
  those generated from the attempt numbers 1 to 9 and are pairwise distinct, whatever
  the randomness; the ten usernames are pairwise distinct whenever the initial one is
  not among those nine, as is the case for every username that
  \<^verbatim>\<open>generateUniqueUsername\<close> produces.
\<close>

theorem always_conflict_exhausts:
  assumes "\<forall>k ud'. 1 \<le> k \<and> k \<le> 10 \<longrightarrow> (\<exists>p. br k ud' = Some p \<and> hasUsernameExistsError p)"
    and "\<forall>ud' p. br 10 ud' = Some p \<longrightarrow> \<not> verifyRegistrationSuccess p"
  shows "registerUser ent br ud =
           (False, ud\<lparr> username := generateSequentialUsername (ent 9) 9 \<rparr>,
            username ud # retryNames ent 1 10) \<and>
         length (username ud # retryNames ent 1 10) = 10 \<and>
         retryNames ent 1 10 = map (\<lambda>k. generateSequentialUsername (ent k) k) [1..<10] \<and>
         distinct (retryNames ent 1 10) \<and>
         (username ud \<notin> set (retryNames ent 1 10) \<longrightarrow> distinct (username ud # retryNames ent 1 10)) \<and>
         (\<forall>hh now. username ud = generateUniqueUsername hh now \<longrightarrow>
            distinct (username ud # retryNames ent 1 10))"
proof -
  obtain p where p: "br 10 (ud\<lparr> username := generateSequentialUsername (ent 9) 9 \<rparr>) = Some p"
    and r: "registerUser ent br ud =
       (verifyRegistrationSuccess p, ud\<lparr> username := generateSequentialUsername (ent 9) 9 \<rparr>,
        username ud # retryNames ent 1 10)"
  proof -
    have c: "\<And>k ud'. 1 \<le> k \<Longrightarrow> k \<le> 10 \<Longrightarrow> \<exists>p. br k ud' = Some p \<and> hasUsernameExistsError p"
      using assms(1) [rule_format] by auto
    from conflict_run [where br = br and ud = ud and ent = ent, OF c] that
    show ?thesis by blast
  qed
  have "\<not> verifyRegistrationSuccess p" using assms(2) p by simp
  then have a: "registerUser ent br ud =
           (False, ud\<lparr> username := generateSequentialUsername (ent 9) 9 \<rparr>,
            username ud # retryNames ent 1 10)"
    using r by simp
  have d: "distinct (retryNames ent 1 10)" by (rule retryNames_distinct) simp_all
  show ?thesis
    using a d by (auto simp: length_retryNames retryNames_def unique_not_sequential)
qed


lemma conflictBrowser_conflicts:
  "\<forall>k ud'. 1 \<le> k \<and> k \<le> 10 \<longrightarrow> (\<exists>p. conflictBrowser k ud' = Some p \<and> hasUsernameExistsError p)"
  by (simp add: conflictBrowser_def conflictPage_facts)

theorem registration_priority_order_witness:
  "conflictBrowser 1 sampleUser = Some conflictPage \<and> (1::nat) \<le> 10 \<and>
   registerLoop sampleEntropy conflictBrowser 10 1 sampleUser =
     (case registerLoop sampleEntropy conflictBrowser 10 (Suc 1)
             (sampleUser\<lparr> username := generateSequentialUsername (sampleEntropy 1) 1 \<rparr>) of
        (res, final, names) \<Rightarrow> (res, final, username sampleUser # names)) \<and>
   conflictBrowser 10 sampleUser = Some conflictPage \<and>
   registerLoop sampleEntropy conflictBrowser 10 10 sampleUser = (False, sampleUser, [username sampleUser])"
proof -
  have b1: "conflictBrowser 1 sampleUser = Some conflictPage"
    and b2: "conflictBrowser 10 sampleUser = Some conflictPage"
    by (simp_all add: conflictBrowser_def)
  show ?thesis
    using registration_priority_order [where br = conflictBrowser and attempt = 1
          and ud = sampleUser and p = conflictPage and maxAttempts = 10 and ent = sampleEntropy]
      registration_priority_order [where br = conflictBrowser and attempt = 10
          and ud = sampleUser and p = conflictPage and maxAttempts = 10 and ent = sampleEntropy]
      b1 b2
    by (simp add: conflictPage_facts Let_def del: One_nat_def)
qed

text \<open>
  Claim C1 as stated fails: when the page shows the username conflict together with a
  link to the accounts overview, the tenth attempt detects the conflict, no attempts
  remain, and registerUser returns true.
\<close>

theorem stale_success_on_last_attempt_counterexample:
  "hasUsernameExistsError staleSuccessPage \<and>
   staleBrowser 10 (sampleUser\<lparr> username := generateSequentialUsername (sampleEntropy 9) 9 \<rparr>)
     = Some staleSuccessPage \<and>
   registerUser sampleEntropy staleBrowser sampleUser =
     (True, sampleUser\<lparr> username := generateSequentialUsername (sampleEntropy 9) 9 \<rparr>,
      username sampleUser # retryNames sampleEntropy 1 10)"
proof -
  have c: "\<And>k ud'. 1 \<le> k \<Longrightarrow> k \<le> 10 \<Longrightarrow>
      \<exists>p. staleBrowser k ud' = Some p \<and> hasUsernameExistsError p"
    by (simp add: staleBrowser_def staleSuccessPage_facts)
  show ?thesis
    using conflict_run [where br = staleBrowser and ud = sampleUser and ent = sampleEntropy, OF c]
    by (simp add: staleBrowser_def staleSuccessPage_facts)
qed

theorem always_conflict_exhausts_witness:
  "registerUser sampleEntropy conflictBrowser sampleUser =
     (False, sampleUser\<lparr> username := generateSequentialUsername (sampleEntropy 9) 9 \<rparr>,
      username sampleUser # retryNames sampleEntropy 1 10) \<and>
   length (username sampleUser # retryNames sampleEntropy 1 10) = 10 \<and>
   distinct (username sampleUser # retryNames sampleEntropy 1 10)"
proof -
  have h2: "\<forall>ud' p. conflictBrowser 10 ud' = Some p \<longrightarrow> \<not> verifyRegistrationSuccess p"
    by (simp add: conflictBrowser_def conflictPage_facts)
  have u: "username sampleUser = generateUniqueUsername 1250999896491 1762160400123"
    by (simp add: sampleUser_def)
  show ?thesis
    using always_conflict_exhausts [OF conflictBrowser_conflicts h2, of sampleEntropy sampleUser] u
    by blast
qed

text \<open>
  Claim C5 as stated fails in two ways. With a conflict on every attempt and a stale
  success indicator on the tenth, registerUser returns true. With an initial username
  that is the name the first retry generates, the usernames of the ten attempts are not
  pairwise distinct.
\<close>

theorem late_success_or_reused_name_counterexample:
  "hasUsernameExistsError conflictPage \<and> hasUsernameExistsError staleSuccessPage \<and>
   fst (registerUser sampleEntropy lateStaleBrowser sampleUser) = True \<and>
   fst (registerUser sampleEntropy conflictBrowser
          (sampleUser\<lparr> username := generateSequentialUsername (sampleEntropy 1) 1 \<rparr>)) = False \<and>
   \<not> distinct (snd (snd (registerUser sampleEntropy conflictBrowser
          (sampleUser\<lparr> username := generateSequentialUsername (sampleEntropy 1) 1 \<rparr>))))"
proof -
  have c: "\<And>k ud'. 1 \<le> k \<Longrightarrow> k \<le> 10 \<Longrightarrow>
      \<exists>p. lateStaleBrowser k ud' = Some p \<and> hasUsernameExistsError p"
    by (simp add: lateStaleBrowser_def staleSuccessPage_facts conflictPage_facts)
  have a: "fst (registerUser sampleEntropy lateStaleBrowser sampleUser) = True"
    using conflict_run [where br = lateStaleBrowser and ud = sampleUser and ent = sampleEntropy, OF c]
    by (auto simp: lateStaleBrowser_def staleSuccessPage_facts)
  let ?u = "sampleUser\<lparr> username := generateSequentialUsername (sampleEntropy 1) 1 \<rparr>"
  have n: "retryNames sampleEntropy 1 10 =
      generateSequentialUsername (sampleEntropy 1) 1 # retryNames sampleEntropy (Suc 1) 10"
    by (simp add: retryNames_def upt_conv_Cons del: One_nat_def)
  have b: "registerUser sampleEntropy conflictBrowser ?u =
      (False, ?u\<lparr> username := generateSequentialUsername (sampleEntropy 9) 9 \<rparr>,
       username ?u # retryNames sampleEntropy 1 10)"
    using conflict_run [where br = conflictBrowser and ud = ?u and ent = sampleEntropy,
        OF conflictBrowser_conflicts [rule_format, OF conjI]]
    by (auto simp: conflictBrowser_def conflictPage_facts)
  show ?thesis
    unfolding b by (simp add: a n conflictPage_facts staleSuccessPage_facts del: One_nat_def)
qed



end
